theory Spec2Isabelle
  imports Main "HOL-Library.Word"
begin

unbundle bit_operations_syntax

section \<open>The USB transport seen by the driver\<close>

text \<open>
  The driver of \<^verbatim>\<open>stlinkv3_spi.c\<close> talks to the probe only through
  \<^verbatim>\<open>libusb_bulk_transfer(handle, endpoint, buffer, length, &actualLength, timeout)\<close>.
  A transfer is recorded in a log in the order of the calls; the probe is a function that
  answers the \<open>i\<close>-th transfer of the session, given the request, with a completion code,
  a transferred length and (for the input endpoint) the bytes it delivers.
\<close>

type_synonym byte = "8 word"

record usb_transfer =
  xfer_ep :: byte
  xfer_data :: "byte list"
  xfer_len :: int

record usb_reply =
  reply_rc :: int
  reply_len :: int
  reply_data :: "byte list"

record usb =
  usb_device :: "nat \<Rightarrow> usb_transfer \<Rightarrow> usb_reply"
  usb_log :: "usb_transfer list"

text \<open>
  What a function of the driver yields besides its output parameters: \<open>Failure c\<close> is
  the nonzero return code \<open>c\<close>; \<open>DivisionByZero\<close> is the unsigned division by zero of
  \<^verbatim>\<open>stlinkv3_spi_calc_prescaler\<close>, which C leaves undefined.
\<close>

datatype error = Failure int | DivisionByZero

definition LIBUSB_TRANSFER_COMPLETED :: int where
  "LIBUSB_TRANSFER_COMPLETED = 0"

definition ST_GETVERSION_EXT :: byte where "ST_GETVERSION_EXT = 0xFB"
definition STLINK_BRIDGE_COMMAND :: byte where "STLINK_BRIDGE_COMMAND = 0xFC"
definition STLINK_BRIDGE_CLOSE :: byte where "STLINK_BRIDGE_CLOSE = 0x01"
definition STLINK_BRIDGE_GET_RWCMD_STATUS :: byte where "STLINK_BRIDGE_GET_RWCMD_STATUS = 0x02"
definition STLINK_BRIDGE_GET_CLOCK :: byte where "STLINK_BRIDGE_GET_CLOCK = 0x03"
definition STLINK_BRIDGE_INIT_SPI :: byte where "STLINK_BRIDGE_INIT_SPI = 0x20"
definition STLINK_BRIDGE_WRITE_SPI :: byte where "STLINK_BRIDGE_WRITE_SPI = 0x21"
definition STLINK_BRIDGE_READ_SPI :: byte where "STLINK_BRIDGE_READ_SPI = 0x22"
definition STLINK_BRIDGE_CS_SPI :: byte where "STLINK_BRIDGE_CS_SPI = 0x23"
definition STLINK_SPI_COM :: byte where "STLINK_SPI_COM = 0x02"
definition STLINK_EP_OUT :: byte where "STLINK_EP_OUT = 0x06"
definition STLINK_EP_IN :: byte where "STLINK_EP_IN = 0x86"
definition FIRMWARE_BRIDGE_STLINK_V3_LAST_VERSION :: byte where
  "FIRMWARE_BRIDGE_STLINK_V3_LAST_VERSION = 3"

text \<open>\<^verbatim>\<open>memset(buf, 0, n)\<close> on a fresh buffer of \<open>n\<close> bytes.\<close>

definition memset0 :: "nat \<Rightarrow> byte list" where
  "memset0 n = replicate n 0"

text \<open>
  The bytes delivered on the input endpoint overwrite the front of the buffer, never more
  than the requested length and never beyond the buffer.
\<close>

definition receive_into :: "byte list \<Rightarrow> int \<Rightarrow> byte list \<Rightarrow> byte list" where
  "receive_into buf n bytes =
     (let got = take (min (nat n) (length buf)) bytes
      in got @ drop (length got) buf)"

text \<open>
  One bulk transfer: the request is appended to the log, the probe's reply to it gives
  the return code and \<^verbatim>\<open>actualLength\<close>, and an input transfer fills the buffer.
\<close>

definition libusb_bulk_transfer ::
  "byte \<Rightarrow> byte list \<Rightarrow> int \<Rightarrow> usb \<Rightarrow> (int \<times> int \<times> byte list) \<times> usb" where
  "libusb_bulk_transfer ep buf n s =
     (let req = \<lparr>xfer_ep = ep, xfer_data = buf, xfer_len = n\<rparr>;
          r = usb_device s (length (usb_log s)) req;
          s' = s\<lparr>usb_log := usb_log s @ [req]\<rparr>
      in ((reply_rc r, reply_len r,
           if ep = STLINK_EP_IN then receive_into buf n (reply_data r) else buf), s'))"

section \<open>Clock negotiation\<close>

datatype SPI_prescaler_t =
    SPI_BAUDRATEPRESCALER_2
  | SPI_BAUDRATEPRESCALER_4
  | SPI_BAUDRATEPRESCALER_8
  | SPI_BAUDRATEPRESCALER_16
  | SPI_BAUDRATEPRESCALER_32
  | SPI_BAUDRATEPRESCALER_64
  | SPI_BAUDRATEPRESCALER_128
  | SPI_BAUDRATEPRESCALER_256

text \<open>The enumerators' values, as sent in byte 6 of the initialisation frame.\<close>

fun prescaler_code :: "SPI_prescaler_t \<Rightarrow> byte" where
  "prescaler_code SPI_BAUDRATEPRESCALER_2 = 0"
| "prescaler_code SPI_BAUDRATEPRESCALER_4 = 1"
| "prescaler_code SPI_BAUDRATEPRESCALER_8 = 2"
| "prescaler_code SPI_BAUDRATEPRESCALER_16 = 3"
| "prescaler_code SPI_BAUDRATEPRESCALER_32 = 4"
| "prescaler_code SPI_BAUDRATEPRESCALER_64 = 5"
| "prescaler_code SPI_BAUDRATEPRESCALER_128 = 6"
| "prescaler_code SPI_BAUDRATEPRESCALER_256 = 7"

text \<open>The divisor an enumerator stands for (the \<^verbatim>\<open>prescaler_value\<close> set beside it).\<close>

fun prescaler_divisor :: "SPI_prescaler_t \<Rightarrow> nat" where
  "prescaler_divisor SPI_BAUDRATEPRESCALER_2 = 2"
| "prescaler_divisor SPI_BAUDRATEPRESCALER_4 = 4"
| "prescaler_divisor SPI_BAUDRATEPRESCALER_8 = 8"
| "prescaler_divisor SPI_BAUDRATEPRESCALER_16 = 16"
| "prescaler_divisor SPI_BAUDRATEPRESCALER_32 = 32"
| "prescaler_divisor SPI_BAUDRATEPRESCALER_64 = 64"
| "prescaler_divisor SPI_BAUDRATEPRESCALER_128 = 128"
| "prescaler_divisor SPI_BAUDRATEPRESCALER_256 = 256"

text \<open>
  \<^verbatim>\<open>stlinkv3_get_clk\<close>: the clock query and its 12-byte answer, whose bytes 4..7 are
  the input clock in kHz, least significant byte first. (The callers never pass a null
  pointer, so the null check of the source has no branch here.)
\<close>

definition stlinkv3_get_clk :: "usb \<Rightarrow> (error + 32 word) \<times> usb" where
  "stlinkv3_get_clk s =
     (let command = (memset0 16)
            [0 := STLINK_BRIDGE_COMMAND, 1 := STLINK_BRIDGE_GET_CLOCK, 2 := STLINK_SPI_COM];
          answer = memset0 12;
          ((rc, actualLength, _), s1) = libusb_bulk_transfer STLINK_EP_OUT command 16 s
      in if rc \<noteq> LIBUSB_TRANSFER_COMPLETED \<or> actualLength \<noteq> 16 then (Inl (Failure (-1)), s1)
         else
           let ((rc, actualLength, answer), s2) = libusb_bulk_transfer STLINK_EP_IN answer 12 s1
           in if rc \<noteq> LIBUSB_TRANSFER_COMPLETED \<or> actualLength \<noteq> 12
              then (Inl (Failure (-1)), s2)
              else (Inr (ucast (answer ! 4)
                         OR push_bit 8 (ucast (answer ! 5))
                         OR push_bit 16 (ucast (answer ! 6))
                         OR push_bit 24 (ucast (answer ! 7))), s2))"

text \<open>
  \<^verbatim>\<open>stlinkv3_spi_calc_prescaler\<close>. The quotient is a 32-bit unsigned division; the
  source does not test the divisor, so a requested frequency of 0 is the error
  \<open>DivisionByZero\<close>. \<^verbatim>\<open>prescaler_value\<close> and the result are \<^verbatim>\<open>uint16_t\<close>: the
  last assignment keeps the low 16 bits of the 32-bit quotient.
\<close>

definition stlinkv3_spi_calc_prescaler ::
  "16 word \<Rightarrow> usb \<Rightarrow> (error + SPI_prescaler_t \<times> 16 word) \<times> usb" where
  "stlinkv3_spi_calc_prescaler reqd_freq_in_kHz s =
     (case stlinkv3_get_clk s of
        (Inl e, s1) \<Rightarrow> (Inl (Failure (-1)), s1)
      | (Inr bridge_clk_in_kHz, s1) \<Rightarrow>
          if reqd_freq_in_kHz = 0 then (Inl DivisionByZero, s1)
          else
            let calculated_prescaler = bridge_clk_in_kHz div ucast reqd_freq_in_kHz;
                (prescaler, prescaler_value :: 16 word) =
                  (if calculated_prescaler \<le> 2 then (SPI_BAUDRATEPRESCALER_2, 2)
                   else if calculated_prescaler \<le> 4 then (SPI_BAUDRATEPRESCALER_4, 4)
                   else if calculated_prescaler \<le> 8 then (SPI_BAUDRATEPRESCALER_8, 8)
                   else if calculated_prescaler \<le> 16 then (SPI_BAUDRATEPRESCALER_16, 16)
                   else if calculated_prescaler \<le> 32 then (SPI_BAUDRATEPRESCALER_32, 32)
                   else if calculated_prescaler \<le> 64 then (SPI_BAUDRATEPRESCALER_64, 64)
                   else if calculated_prescaler \<le> 128 then (SPI_BAUDRATEPRESCALER_128, 128)
                   else if calculated_prescaler \<le> 256 then (SPI_BAUDRATEPRESCALER_256, 256)
                   else (SPI_BAUDRATEPRESCALER_256, 256))
            in (Inr (prescaler, ucast (bridge_clk_in_kHz div ucast prescaler_value)), s1))"

section \<open>Session open\<close>

datatype fw_version_check_result_t = FW_VERSION_OK | FW_VERSION_OLD

definition SPI_DIRECTION_2LINES_FULLDUPLEX :: byte where "SPI_DIRECTION_2LINES_FULLDUPLEX = 0"
definition SPI_MODE_MASTER :: byte where "SPI_MODE_MASTER = 1"
definition SPI_DATASIZE_8B :: byte where "SPI_DATASIZE_8B = 1"
definition SPI_CPOL_LOW :: byte where "SPI_CPOL_LOW = 0"
definition SPI_CPHA_1EDGE :: byte where "SPI_CPHA_1EDGE = 0"
definition SPI_FIRSTBIT_MSB :: byte where "SPI_FIRSTBIT_MSB = 1"
definition SPI_NSS_SOFT :: byte where "SPI_NSS_SOFT = 0"

text \<open>
  \<^verbatim>\<open>stlinkv3_check_version\<close>: the version query and its 12-byte answer; byte 4 is the
  bridge firmware version. (The source does not clear \<^verbatim>\<open>answer\<close>; it reads it only
  after a transfer that reported all 12 bytes.)
\<close>

definition stlinkv3_check_version :: "usb \<Rightarrow> (error + fw_version_check_result_t) \<times> usb" where
  "stlinkv3_check_version s =
     (let command = (memset0 16)[0 := ST_GETVERSION_EXT, 1 := 0x80];
          answer = memset0 12;
          ((rc, actualLength, _), s1) = libusb_bulk_transfer STLINK_EP_OUT command 16 s
      in if rc \<noteq> LIBUSB_TRANSFER_COMPLETED \<or> actualLength \<noteq> 16 then (Inl (Failure (-1)), s1)
         else
           let ((rc, actualLength, answer), s2) = libusb_bulk_transfer STLINK_EP_IN answer 12 s1
           in if rc \<noteq> LIBUSB_TRANSFER_COMPLETED \<or> actualLength \<noteq> 12
              then (Inl (Failure (-1)), s2)
              else (Inr (if answer ! 4 \<ge> FIRMWARE_BRIDGE_STLINK_V3_LAST_VERSION
                         then FW_VERSION_OK else FW_VERSION_OLD), s2))"

text \<open>
  \<^verbatim>\<open>stlinkv3_spi_open\<close>. The test after the initialisation frame is written with
  \<^verbatim>\<open>&&\<close> in the source, and so it is here.
\<close>

definition stlinkv3_spi_open :: "16 word \<Rightarrow> usb \<Rightarrow> (error + unit) \<times> usb" where
  "stlinkv3_spi_open reqested_freq_in_kHz s =
     (case stlinkv3_check_version s of
        (Inl e, s1) \<Rightarrow> (Inl (Failure (-1)), s1)
      | (Inr fw_check_result, s1) \<Rightarrow>
          if fw_check_result \<noteq> FW_VERSION_OK then (Inl (Failure (-1)), s1)
          else
            (case stlinkv3_spi_calc_prescaler reqested_freq_in_kHz s1 of
               (Inl e, s2) \<Rightarrow>
                 (Inl (case e of DivisionByZero \<Rightarrow> DivisionByZero | Failure c \<Rightarrow> Failure (-1)), s2)
             | (Inr (prescaler, SCK_freq_in_kHz), s2) \<Rightarrow>
                 let command = (memset0 16)
                       [0 := STLINK_BRIDGE_COMMAND,
                        1 := STLINK_BRIDGE_INIT_SPI,
                        2 := SPI_DIRECTION_2LINES_FULLDUPLEX,
                        3 := SPI_MODE_MASTER
                             OR push_bit 1 SPI_CPHA_1EDGE
                             OR push_bit 2 SPI_CPOL_LOW
                             OR push_bit 3 SPI_FIRSTBIT_MSB,
                        4 := SPI_DATASIZE_8B,
                        5 := SPI_NSS_SOFT,
                        6 := prescaler_code prescaler];
                     answer = memset0 2;
                     ((rc, actualLength, _), s3) = libusb_bulk_transfer STLINK_EP_OUT command 16 s2
                 in if rc \<noteq> LIBUSB_TRANSFER_COMPLETED \<and> actualLength \<noteq> 16
                    then (Inl (Failure (-1)), s3)
                    else
                      let ((rc, actualLength, answer), s4) =
                            libusb_bulk_transfer STLINK_EP_IN answer 2 s3
                      in if rc \<noteq> LIBUSB_TRANSFER_COMPLETED \<or> actualLength \<noteq> 2
                         then (Inl (Failure (-1)), s4)
                         else (Inr (), s4)))"

section \<open>Status poll and chip select\<close>

text \<open>
  The status answer is read into \<^verbatim>\<open>uint16_t answer[4]\<close>; element \<open>k\<close> is made of
  bytes \<open>2k\<close> and \<open>2k+1\<close> of the transfer, low byte first on the little-endian hosts the
  driver runs on. Whether the status is zero does not depend on the byte order.
\<close>

definition uint16_at :: "byte list \<Rightarrow> nat \<Rightarrow> 16 word" where
  "uint16_at buf k = ucast (buf ! (2 * k)) OR push_bit 8 (ucast (buf ! (2 * k + 1)))"

definition stlinkv3_get_last_readwrite_status :: "usb \<Rightarrow> (error + 32 word) \<times> usb" where
  "stlinkv3_get_last_readwrite_status s =
     (let command = (memset0 16)
            [0 := STLINK_BRIDGE_COMMAND, 1 := STLINK_BRIDGE_GET_RWCMD_STATUS];
          answer = memset0 8;
          ((rc, actualLength, _), s1) = libusb_bulk_transfer STLINK_EP_OUT command 16 s
      in if rc \<noteq> LIBUSB_TRANSFER_COMPLETED \<or> actualLength \<noteq> 16 then (Inl (Failure (-1)), s1)
         else
           let ((rc, actualLength, answer), s2) = libusb_bulk_transfer STLINK_EP_IN answer 8 s1
           in if rc \<noteq> LIBUSB_TRANSFER_COMPLETED \<or> actualLength \<noteq> 8
              then (Inl (Failure (-1)), s2)
              else (Inr (ucast (uint16_at answer 2) OR push_bit 16 (ucast (uint16_at answer 3))),
                    s2))"

datatype SPI_NSS_Level_t = SPI_NSS_LOW | SPI_NSS_HIGH

fun nss_code :: "SPI_NSS_Level_t \<Rightarrow> byte" where
  "nss_code SPI_NSS_LOW = 0"
| "nss_code SPI_NSS_HIGH = 1"

definition stlinkv3_spi_set_SPI_NSS :: "SPI_NSS_Level_t \<Rightarrow> usb \<Rightarrow> (error + unit) \<times> usb" where
  "stlinkv3_spi_set_SPI_NSS NSS_level s =
     (let command = (memset0 16)
            [0 := STLINK_BRIDGE_COMMAND, 1 := STLINK_BRIDGE_CS_SPI, 2 := nss_code NSS_level];
          answer = memset0 2;
          ((rc, actualLength, _), s1) = libusb_bulk_transfer STLINK_EP_OUT command 16 s
      in if rc \<noteq> LIBUSB_TRANSFER_COMPLETED \<or> actualLength \<noteq> 16 then (Inl (Failure (-1)), s1)
         else
           let ((rc, actualLength, answer), s2) = libusb_bulk_transfer STLINK_EP_IN answer 2 s1
           in if rc \<noteq> LIBUSB_TRANSFER_COMPLETED \<or> actualLength \<noteq> 2
              then (Inl (Failure (-1)), s2)
              else (Inr (), s2))"

section \<open>One SPI transaction\<close>

text \<open>
  The loop \<^verbatim>\<open>for (i = 0; (i < 8) && (i < write_cnt); i++) command[4+i] = write_arr[i]\<close>.
\<close>

function copy_inline :: "nat \<Rightarrow> 32 word \<Rightarrow> byte list \<Rightarrow> byte list \<Rightarrow> byte list" where
  "copy_inline i write_cnt write_arr command =
     (if i < 8 \<and> i < unat write_cnt
      then copy_inline (i + 1) write_cnt write_arr (command[4 + i := write_arr ! i])
      else command)"
  by pat_completeness auto
termination
  by (relation "measure (\<lambda>(i, write_cnt, write_arr, command). 8 - i)") auto

declare copy_inline.simps [simp del]

text \<open>The label \<^verbatim>\<open>transmit_err\<close>: chip select high, its failure only logged.\<close>

definition transmit_err :: "usb \<Rightarrow> (error + byte list) \<times> usb" where
  "transmit_err s =
     (let (r, s') = stlinkv3_spi_set_SPI_NSS SPI_NSS_HIGH s in (Inl (Failure (-1)), s'))"

text \<open>
  \<^verbatim>\<open>stlinkv3_spi_transmit\<close>, block by block, last block first; a block ends by
  returning, by a jump to \<^verbatim>\<open>transmit_err\<close>, or by falling through to the next block.
  \<^verbatim>\<open>write_arr\<close> is the caller's array of \<^verbatim>\<open>write_cnt\<close> bytes,
  \<^verbatim>\<open>read_arr\<close> its buffer of \<^verbatim>\<open>read_cnt\<close> bytes. The counts are
  \<^verbatim>\<open>unsigned int\<close>; a count given to libusb is converted to \<^verbatim>\<open>int\<close>, and
  \<^verbatim>\<open>actualLength\<close> is compared with a count as \<^verbatim>\<open>unsigned int\<close>.
\<close>

text \<open>Lines 480 to 492: the status poll after the read, then chip select high.\<close>

definition transmit_status_after_read :: "byte list \<Rightarrow> usb \<Rightarrow> (error + byte list) \<times> usb" where
  "transmit_status_after_read read_arr s =
     (case stlinkv3_get_last_readwrite_status s of
        (Inl e, s1) \<Rightarrow> transmit_err s1
      | (Inr rw_status, s1) \<Rightarrow>
          if rw_status \<noteq> 0 then transmit_err s1
          else
            (case stlinkv3_spi_set_SPI_NSS SPI_NSS_HIGH s1 of
               (Inl e, s2) \<Rightarrow> (Inl (Failure (-1)), s2)
             | (Inr _, s2) \<Rightarrow> (Inr read_arr, s2)))"

text \<open>
  Lines 453 to 478: the read command, in the frame that still holds the write command's
  inline bytes, and the raw input transfer into \<^verbatim>\<open>read_arr\<close>.
\<close>

definition transmit_read ::
  "byte list \<Rightarrow> 32 word \<Rightarrow> byte list \<Rightarrow> usb \<Rightarrow> (error + byte list) \<times> usb" where
  "transmit_read command read_cnt read_arr s =
     (if read_cnt \<noteq> 0
      then
        let command = command
              [1 := STLINK_BRIDGE_READ_SPI,
               2 := ucast read_cnt,
               3 := ucast (drop_bit 8 read_cnt)];
            ((rc, actualLength, _), s1) = libusb_bulk_transfer STLINK_EP_OUT command 16 s
        in if rc \<noteq> LIBUSB_TRANSFER_COMPLETED \<or> actualLength \<noteq> 16 then transmit_err s1
           else
             let ((rc, actualLength, read_arr), s2) =
                   libusb_bulk_transfer STLINK_EP_IN read_arr (sint read_cnt) s1
             in if rc \<noteq> LIBUSB_TRANSFER_COMPLETED
                     \<or> (word_of_int actualLength :: 32 word) \<noteq> read_cnt
                then transmit_err s2
                else transmit_status_after_read read_arr s2
      else transmit_status_after_read read_arr s)"

text \<open>
  Lines 445 to 451: the status poll after the write. When the poll itself fails the
  source returns \<open>-1\<close> at once, without the jump to \<^verbatim>\<open>transmit_err\<close>.
\<close>

definition transmit_status_after_write ::
  "byte list \<Rightarrow> 32 word \<Rightarrow> byte list \<Rightarrow> usb \<Rightarrow> (error + byte list) \<times> usb" where
  "transmit_status_after_write command read_cnt read_arr s =
     (case stlinkv3_get_last_readwrite_status s of
        (Inl e, s1) \<Rightarrow> (Inl (Failure (-1)), s1)
      | (Inr rw_status, s1) \<Rightarrow>
          if rw_status \<noteq> 0 then transmit_err s1
          else transmit_read command read_cnt read_arr s1)"

text \<open>
  Lines 406 to 443: chip select low, the write command frame with up to 8 inline bytes,
  and the raw transfer of the bytes from \<^verbatim>\<open>write_arr[8]\<close> on when there are more.
\<close>

definition stlinkv3_spi_transmit ::
  "32 word \<Rightarrow> 32 word \<Rightarrow> byte list \<Rightarrow> byte list \<Rightarrow> usb \<Rightarrow> (error + byte list) \<times> usb" where
  "stlinkv3_spi_transmit write_cnt read_cnt write_arr read_arr s =
     (case stlinkv3_spi_set_SPI_NSS SPI_NSS_LOW s of
        (Inl e, s1) \<Rightarrow> (Inl (Failure (-1)), s1)
      | (Inr _, s1) \<Rightarrow>
          let command = copy_inline 0 write_cnt write_arr
                ((memset0 16)
                   [0 := STLINK_BRIDGE_COMMAND,
                    1 := STLINK_BRIDGE_WRITE_SPI,
                    2 := ucast write_cnt,
                    3 := ucast (drop_bit 8 write_cnt)]);
              ((rc, actualLength, _), s2) = libusb_bulk_transfer STLINK_EP_OUT command 16 s1
          in if rc \<noteq> LIBUSB_TRANSFER_COMPLETED \<or> actualLength \<noteq> 16 then transmit_err s2
             else if write_cnt > 8
             then
               let ((rc, actualLength, _), s3) =
                     libusb_bulk_transfer STLINK_EP_OUT
                       (take (unat (write_cnt - 8)) (drop 8 write_arr))
                       (sint (write_cnt - 8)) s2
               in if rc \<noteq> LIBUSB_TRANSFER_COMPLETED
                       \<or> (word_of_int actualLength :: 32 word) \<noteq> write_cnt - 8
                  then transmit_err s3
                  else transmit_status_after_write command read_cnt read_arr s3
             else transmit_status_after_write command read_cnt read_arr s2)"

section \<open>Registration and initialisation\<close>

definition UINT16_MAX :: nat where
  "UINT16_MAX = 65535"

text \<open>
  The fields of \<^verbatim>\<open>struct spi_master\<close> that this file sets itself: the two limits and
  the \<^verbatim>\<open>command\<close> callback. (The other callbacks are the generic ones of the SPI layer.)
\<close>

record spi_master =
  max_data_read :: nat
  max_data_write :: nat
  command :: "32 word \<Rightarrow> 32 word \<Rightarrow> byte list \<Rightarrow> byte list \<Rightarrow> usb \<Rightarrow> (error + byte list) \<times> usb"

definition spi_programmer_stlinkv3 :: spi_master where
  "spi_programmer_stlinkv3 =
     \<lparr>max_data_read = UINT16_MAX,
      max_data_write = UINT16_MAX,
      command = stlinkv3_spi_transmit\<rparr>"

text \<open>
  What \<^verbatim>\<open>stlinkv3_spi_init\<close> gets from outside this file: whether libusb gave a
  context and a device handle, the \<^verbatim>\<open>spispeed\<close> parameter if present, the C library's
  \<^verbatim>\<open>strtoul\<close> (the value and the rest of the string at \<^verbatim>\<open>endptr\<close>), and the return
  codes of the two registrations.
\<close>

record init_env =
  usb_ctx_ok :: bool
  handle_found :: bool
  spispeed :: "string option"
  strtoul :: "string \<Rightarrow> 64 word \<times> string"
  register_shutdown_rc :: int
  register_spi_master_rc :: int

text \<open>
  \<^verbatim>\<open>stlinkv3_spi_init\<close>. The \<^verbatim>\<open>unsigned long\<close> of \<^verbatim>\<open>strtoul\<close> is assigned to
  the \<^verbatim>\<open>uint16_t sck_freq_kHz\<close>; only a non-empty rest of the string is rejected.
\<close>

definition stlinkv3_spi_init :: "init_env \<Rightarrow> usb \<Rightarrow> (error + unit) \<times> usb" where
  "stlinkv3_spi_init env s =
     (if \<not> usb_ctx_ok env then (Inl (Failure 1), s)
      else if \<not> handle_found env then (Inl (Failure 1), s)
      else
        let (bad_format, sck_freq_kHz :: 16 word) =
              (case spispeed env of
                 None \<Rightarrow> (False, 1000)
               | Some speed_str \<Rightarrow>
                   let (v, endptr) = strtoul env speed_str
                   in (endptr \<noteq> [], ucast v))
        in if bad_format then (Inl (Failure (-1)), s)
           else
             (case stlinkv3_spi_open sck_freq_kHz s of
                (Inl e, s1) \<Rightarrow>
                  (Inl (case e of DivisionByZero \<Rightarrow> DivisionByZero | Failure c \<Rightarrow> Failure 1), s1)
              | (Inr _, s1) \<Rightarrow>
                  if register_shutdown_rc env \<noteq> 0 then (Inl (Failure 1), s1)
                  else if register_spi_master_rc env \<noteq> 0 then (Inl (Failure 1), s1)
                  else (Inr (), s1)))"

section \<open>The transfers and replies the statements speak of\<close>

text \<open>A reply that reports completion with the transferred length \<open>n\<close>.\<close>

definition completes :: "usb_reply \<Rightarrow> int \<Rightarrow> bool" where
  "completes r n \<longleftrightarrow> reply_rc r = LIBUSB_TRANSFER_COMPLETED \<and> reply_len r = n"

text \<open>The probe completes every transfer with the length requested.\<close>

definition all_complete :: "(nat \<Rightarrow> usb_transfer \<Rightarrow> usb_reply) \<Rightarrow> bool" where
  "all_complete d \<longleftrightarrow> (\<forall>i req. completes (d i req) (xfer_len req))"

text \<open>The chip-select command for a level, and the input transfer for its 2-byte answer.\<close>

definition cs_command :: "SPI_NSS_Level_t \<Rightarrow> usb_transfer" where
  "cs_command lvl =
     \<lparr>xfer_ep = STLINK_EP_OUT,
      xfer_data = [STLINK_BRIDGE_COMMAND, STLINK_BRIDGE_CS_SPI, nss_code lvl,
                   0, 0, 0, 0, 0, 0, 0, 0, 0, 0, 0, 0, 0],
      xfer_len = 16\<rparr>"

definition cs_answer :: usb_transfer where
  "cs_answer = \<lparr>xfer_ep = STLINK_EP_IN, xfer_data = [0, 0], xfer_len = 2\<rparr>"

text \<open>The status query, the input transfer for its 8-byte answer, and the status in a reply.\<close>

definition status_command :: usb_transfer where
  "status_command =
     \<lparr>xfer_ep = STLINK_EP_OUT,
      xfer_data = [STLINK_BRIDGE_COMMAND, STLINK_BRIDGE_GET_RWCMD_STATUS,
                   0, 0, 0, 0, 0, 0, 0, 0, 0, 0, 0, 0, 0, 0],
      xfer_len = 16\<rparr>"

definition status_answer :: usb_transfer where
  "status_answer =
     \<lparr>xfer_ep = STLINK_EP_IN, xfer_data = [0, 0, 0, 0, 0, 0, 0, 0], xfer_len = 8\<rparr>"

definition status_of :: "usb_reply \<Rightarrow> 32 word" where
  "status_of r =
     (let answer = receive_into (memset0 8) 8 (reply_data r)
      in ucast (uint16_at answer 2) OR push_bit 16 (ucast (uint16_at answer 3)))"

text \<open>
  The write command of a transaction (its frame is built as in the source), the raw
  transfer that continues it, the read command made from a frame \<open>cmd\<close>, and the raw
  input transfer into the read buffer.
\<close>

definition write_frame :: "32 word \<Rightarrow> byte list \<Rightarrow> byte list" where
  "write_frame write_cnt write_arr =
     copy_inline 0 write_cnt write_arr
       ((memset0 16)
          [0 := STLINK_BRIDGE_COMMAND,
           1 := STLINK_BRIDGE_WRITE_SPI,
           2 := ucast write_cnt,
           3 := ucast (drop_bit 8 write_cnt)])"

definition write_command :: "32 word \<Rightarrow> byte list \<Rightarrow> usb_transfer" where
  "write_command write_cnt write_arr =
     \<lparr>xfer_ep = STLINK_EP_OUT, xfer_data = write_frame write_cnt write_arr, xfer_len = 16\<rparr>"

definition write_continuation :: "32 word \<Rightarrow> byte list \<Rightarrow> usb_transfer" where
  "write_continuation write_cnt write_arr =
     \<lparr>xfer_ep = STLINK_EP_OUT,
      xfer_data = take (unat (write_cnt - 8)) (drop 8 write_arr),
      xfer_len = sint (write_cnt - 8)\<rparr>"

definition read_command :: "byte list \<Rightarrow> 32 word \<Rightarrow> usb_transfer" where
  "read_command cmd read_cnt =
     \<lparr>xfer_ep = STLINK_EP_OUT,
      xfer_data = cmd[1 := STLINK_BRIDGE_READ_SPI,
                      2 := ucast read_cnt,
                      3 := ucast (drop_bit 8 read_cnt)],
      xfer_len = 16\<rparr>"

definition read_data :: "byte list \<Rightarrow> 32 word \<Rightarrow> usb_transfer" where
  "read_data read_arr read_cnt =
     \<lparr>xfer_ep = STLINK_EP_IN, xfer_data = read_arr, xfer_len = sint read_cnt\<rparr>"

text \<open>
  The version query and the input transfer for its 12-byte answer, the version byte in a
  reply, the clock query and its answer transfer, and the initialisation command for a
  prescaler (full duplex, master with first edge, idle low and MSB first, 8-bit words,
  software chip select).
\<close>

definition version_command :: usb_transfer where
  "version_command =
     \<lparr>xfer_ep = STLINK_EP_OUT,
      xfer_data = [ST_GETVERSION_EXT, 0x80, 0, 0, 0, 0, 0, 0, 0, 0, 0, 0, 0, 0, 0, 0],
      xfer_len = 16\<rparr>"

definition version_answer :: usb_transfer where
  "version_answer =
     \<lparr>xfer_ep = STLINK_EP_IN, xfer_data = [0, 0, 0, 0, 0, 0, 0, 0, 0, 0, 0, 0], xfer_len = 12\<rparr>"

definition version_of :: "usb_reply \<Rightarrow> byte" where
  "version_of r = receive_into (memset0 12) 12 (reply_data r) ! 4"

definition clock_command :: usb_transfer where
  "clock_command =
     \<lparr>xfer_ep = STLINK_EP_OUT,
      xfer_data = [STLINK_BRIDGE_COMMAND, STLINK_BRIDGE_GET_CLOCK, STLINK_SPI_COM,
                   0, 0, 0, 0, 0, 0, 0, 0, 0, 0, 0, 0, 0],
      xfer_len = 16\<rparr>"

definition clock_answer :: usb_transfer where
  "clock_answer =
     \<lparr>xfer_ep = STLINK_EP_IN, xfer_data = [0, 0, 0, 0, 0, 0, 0, 0, 0, 0, 0, 0], xfer_len = 12\<rparr>"

definition init_command :: "SPI_prescaler_t \<Rightarrow> usb_transfer" where
  "init_command p =
     \<lparr>xfer_ep = STLINK_EP_OUT,
      xfer_data = [STLINK_BRIDGE_COMMAND, STLINK_BRIDGE_INIT_SPI, 0, 9, 1, 0, prescaler_code p,
                   0, 0, 0, 0, 0, 0, 0, 0, 0],
      xfer_len = 16\<rparr>"

section \<open>Scripted probes for concrete runs\<close>

text \<open>
  A probe given by the list of its replies, in the order of the transfers; when the list
  is used up every further transfer times out. \<open>fresh rs\<close> is a session with such a
  probe and no transfer issued yet.
\<close>

definition LIBUSB_ERROR_TIMEOUT :: int where
  "LIBUSB_ERROR_TIMEOUT = -7"

definition completed :: "int \<Rightarrow> byte list \<Rightarrow> usb_reply" where
  "completed n bytes =
     \<lparr>reply_rc = LIBUSB_TRANSFER_COMPLETED, reply_len = n, reply_data = bytes\<rparr>"

definition timed_out :: usb_reply where
  "timed_out = \<lparr>reply_rc = LIBUSB_ERROR_TIMEOUT, reply_len = 0, reply_data = []\<rparr>"

definition scripted :: "usb_reply list \<Rightarrow> nat \<Rightarrow> usb_transfer \<Rightarrow> usb_reply" where
  "scripted rs i req = (if i < length rs then rs ! i else timed_out)"

definition fresh :: "usb_reply list \<Rightarrow> usb" where
  "fresh rs = \<lparr>usb_device = scripted rs, usb_log = []\<rparr>"

text \<open>The two replies of a clock query on a probe whose bridge clock is 48000 kHz.\<close>

definition clock_48000 :: "usb_reply list" where
  "clock_48000 = [completed 16 [], completed 12 [0, 0, 0, 0, 0x80, 0xBB, 0, 0, 0, 0, 0, 0]]"

text \<open>The same for a bridge clock of 262144 kHz.\<close>

definition clock_262144 :: "usb_reply list" where
  "clock_262144 = [completed 16 [], completed 12 [0, 0, 0, 0, 0, 0, 4, 0, 0, 0, 0, 0]]"

text \<open>A probe that completes every transfer with the length requested and sends no bytes.\<close>

definition obliging :: "nat \<Rightarrow> usb_transfer \<Rightarrow> usb_reply" where
  "obliging i req = completed (xfer_len req) []"

text \<open>
  The replies of a probe with bridge firmware version 3 and a bridge clock of 48000 kHz,
  up to the clock answer, and those of a probe with firmware version 2.
\<close>

definition version_3_clock_48000 :: "usb_reply list" where
  "version_3_clock_48000 =
     [completed 16 [], completed 12 [0, 0, 0, 0, 3, 0, 0, 0, 0, 0, 0, 0]] @ clock_48000"

definition version_2 :: "usb_reply list" where
  "version_2 = [completed 16 [], completed 12 [0, 0, 0, 0, 2, 0, 0, 0, 0, 0, 0, 0]]"

text \<open>
  Two continuations of the first script: the initialisation command reported complete with
  3 of its 16 bytes transferred, and reported timed out with all 16 transferred; the
  acknowledgement completes in both.
\<close>

definition init_sent_short :: "usb_reply list" where
  "init_sent_short = version_3_clock_48000 @ [completed 3 [], completed 2 [0, 0]]"

definition init_sent_after_timeout :: "usb_reply list" where
  "init_sent_after_timeout =
     version_3_clock_48000
       @ [\<lparr>reply_rc = LIBUSB_ERROR_TIMEOUT, reply_len = 16, reply_data = []\<rparr>,
          completed 2 [0, 0]]"

text \<open>
  An initialisation with \<^verbatim>\<open>spispeed=0\<close>: libusb gives a context and a handle, and
  \<^verbatim>\<open>strtoul\<close> reads the string \<^verbatim>\<open>0\<close> as 0 with nothing left over (any other
  string is left unread here).
\<close>

definition libc_zero :: "string \<Rightarrow> 64 word \<times> string" where
  "libc_zero str = (if str = ''0'' then (0, []) else (0, str))"

definition init_env_zero :: init_env where
  "init_env_zero =
     \<lparr>usb_ctx_ok = True, handle_found = True, spispeed = Some ''0'', strtoul = libc_zero,
      register_shutdown_rc = 0, register_spi_master_rc = 0\<rparr>"

section \<open>Evaluation rules\<close>

lemmas opcode_defs =
  ST_GETVERSION_EXT_def STLINK_BRIDGE_COMMAND_def STLINK_BRIDGE_CLOSE_def
  STLINK_BRIDGE_GET_RWCMD_STATUS_def STLINK_BRIDGE_GET_CLOCK_def STLINK_BRIDGE_INIT_SPI_def
  STLINK_BRIDGE_WRITE_SPI_def STLINK_BRIDGE_READ_SPI_def STLINK_BRIDGE_CS_SPI_def
  STLINK_SPI_COM_def STLINK_EP_OUT_def STLINK_EP_IN_def
  FIRMWARE_BRIDGE_STLINK_V3_LAST_VERSION_def LIBUSB_TRANSFER_COMPLETED_def

section \<open>Word facts\<close>

lemma unat_ucast_16_32: "unat (ucast (w :: 16 word) :: 32 word) = unat w"
proof -
  have "unat w < 2 ^ 16" using unsigned_less [of w] by simp
  then have "unat w < 2 ^ 32" by simp
  then show ?thesis by (simp add: unsigned_ucast_eq take_bit_nat_eq_self)
qed

lemma unat_ucast_32_16: "unat (ucast (w :: 32 word) :: 16 word) = unat w mod 65536"
  by (simp add: unsigned_ucast_eq take_bit_eq_mod)

lemma length_field:
  "unat (ucast (w :: 32 word) :: byte) + 256 * unat (ucast (drop_bit 8 w) :: byte)
     = unat w mod 65536"
proof -
  have lo: "unat (ucast w :: byte) = unat w mod 256"
    by (simp add: unsigned_ucast_eq take_bit_eq_mod)
  have hi: "unat (ucast (drop_bit 8 w) :: byte) = unat w div 256 mod 256"
    by (simp add: unsigned_ucast_eq take_bit_eq_mod unat_drop_bit_eq drop_bit_eq_div unat_div)
  have "unat w mod (256 * 256) = 256 * (unat w div 256 mod 256) + unat w mod 256"
    by (rule mod_mult2_eq)
  with lo hi show ?thesis by simp
qed

lemma mod_65536_eq_iff: "(x :: nat) mod 65536 = x \<longleftrightarrow> x \<le> 65535"
proof
  assume "x mod 65536 = x"
  moreover have "x mod 65536 < 65536" by simp
  ultimately show "x \<le> 65535" by linarith
next
  assume "x \<le> 65535"
  then show "x mod 65536 = x" by simp
qed

section \<open>Frames and exchanges on an explicit session\<close>

lemma length_memset0 [simp]: "length (memset0 n) = n"
  by (simp add: memset0_def)

lemma memset0_16: "memset0 16 = [0, 0, 0, 0, 0, 0, 0, 0, 0, 0, 0, 0, 0, 0, 0, 0]"
  by (simp add: memset0_def numeral_eq_Suc)

lemma memset0_12: "memset0 12 = [0, 0, 0, 0, 0, 0, 0, 0, 0, 0, 0, 0]"
  by (simp add: memset0_def numeral_eq_Suc)

lemma memset0_8: "memset0 8 = [0, 0, 0, 0, 0, 0, 0, 0]"
  by (simp add: memset0_def numeral_eq_Suc)

lemma memset0_2: "memset0 2 = [0, 0]"
  by (simp add: memset0_def numeral_eq_Suc)

lemma frame_2: "(memset0 16)[0 := a, Suc 0 := b]
    = [a, b, 0, 0, 0, 0, 0, 0, 0, 0, 0, 0, 0, 0, 0, 0]"
  unfolding memset0_16 by (simp add: eval_nat_numeral)

lemma frame_3: "(memset0 16)[0 := a, Suc 0 := b, 2 := c]
    = [a, b, c, 0, 0, 0, 0, 0, 0, 0, 0, 0, 0, 0, 0, 0]"
  unfolding memset0_16 by (simp add: eval_nat_numeral)

lemma frame_4: "(memset0 16)[0 := a, Suc 0 := b, 2 := c, 3 := d] = [a, b, c, d] @ replicate 12 0"
  unfolding memset0_16 by (simp add: eval_nat_numeral)

lemma bulk_explicit:
  "libusb_bulk_transfer ep buf n \<lparr>usb_device = d, usb_log = L\<rparr> =
     ((reply_rc (d (length L) \<lparr>xfer_ep = ep, xfer_data = buf, xfer_len = n\<rparr>),
       reply_len (d (length L) \<lparr>xfer_ep = ep, xfer_data = buf, xfer_len = n\<rparr>),
       if ep = STLINK_EP_IN
       then receive_into buf n
              (reply_data (d (length L) \<lparr>xfer_ep = ep, xfer_data = buf, xfer_len = n\<rparr>))
       else buf),
      \<lparr>usb_device = d, usb_log = L @ [\<lparr>xfer_ep = ep, xfer_data = buf, xfer_len = n\<rparr>]\<rparr>)"
  by (simp add: libusb_bulk_transfer_def Let_def)

lemma set_NSS_explicit:
  "stlinkv3_spi_set_SPI_NSS lvl \<lparr>usb_device = d, usb_log = L\<rparr> =
     (if \<not> completes (d (length L) (cs_command lvl)) 16
      then (Inl (Failure (-1)), \<lparr>usb_device = d, usb_log = L @ [cs_command lvl]\<rparr>)
      else if \<not> completes (d (Suc (length L)) cs_answer) 2
      then (Inl (Failure (-1)), \<lparr>usb_device = d, usb_log = L @ [cs_command lvl, cs_answer]\<rparr>)
      else (Inr (), \<lparr>usb_device = d, usb_log = L @ [cs_command lvl, cs_answer]\<rparr>))"
  by (simp add: stlinkv3_spi_set_SPI_NSS_def bulk_explicit frame_3 memset0_2
      cs_command_def cs_answer_def completes_def Let_def)

lemma get_status_explicit:
  "stlinkv3_get_last_readwrite_status \<lparr>usb_device = d, usb_log = L\<rparr> =
     (if \<not> completes (d (length L) status_command) 16
      then (Inl (Failure (-1)), \<lparr>usb_device = d, usb_log = L @ [status_command]\<rparr>)
      else if \<not> completes (d (Suc (length L)) status_answer) 8
      then (Inl (Failure (-1)),
            \<lparr>usb_device = d, usb_log = L @ [status_command, status_answer]\<rparr>)
      else (Inr (status_of (d (Suc (length L)) status_answer)),
            \<lparr>usb_device = d, usb_log = L @ [status_command, status_answer]\<rparr>))"
  by (simp add: stlinkv3_get_last_readwrite_status_def bulk_explicit frame_2 memset0_8
      status_command_def status_answer_def completes_def status_of_def Let_def)

lemma transmit_err_explicit:
  "transmit_err \<lparr>usb_device = d, usb_log = L\<rparr> =
     (Inl (Failure (-1)),
      \<lparr>usb_device = d,
       usb_log = L @ cs_command SPI_NSS_HIGH #
         (if completes (d (length L) (cs_command SPI_NSS_HIGH)) 16 then [cs_answer] else [])\<rparr>)"
  by (simp add: transmit_err_def set_NSS_explicit)

section \<open>The write command frame\<close>

lemma copy_inline_length: "length (copy_inline i n arr cmd) = length cmd"
proof (induction i n arr cmd rule: copy_inline.induct)
  case (1 i write_cnt write_arr cmd)
  then show ?case
    by (subst copy_inline.simps) simp
qed

lemma copy_inline_nth:
  "length cmd = 16 \<Longrightarrow> j < 16 \<Longrightarrow>
   copy_inline i n arr cmd ! j =
     (if 4 + i \<le> j \<and> j < 4 + min 8 (unat n) then arr ! (j - 4) else cmd ! j)"
proof (induction i n arr cmd rule: copy_inline.induct)
  case (1 i write_cnt write_arr cmd)
  show ?case
  proof (cases "i < 8 \<and> i < unat write_cnt")
    case True
    then have "copy_inline i write_cnt write_arr cmd
        = copy_inline (i + 1) write_cnt write_arr (cmd[4 + i := write_arr ! i])"
      by (subst copy_inline.simps) simp
    with True 1 show ?thesis
      by (auto simp add: nth_list_update)
  next
    case False
    then have "copy_inline i write_cnt write_arr cmd = cmd"
      by (subst copy_inline.simps) auto
    with False show ?thesis by auto
  qed
qed

lemma write_frame_fold:
  "copy_inline 0 write_cnt write_arr
       ((memset0 16)
          [0 := STLINK_BRIDGE_COMMAND,
           Suc 0 := STLINK_BRIDGE_WRITE_SPI,
           2 := ucast write_cnt,
           3 := ucast (drop_bit 8 write_cnt)]) = write_frame write_cnt write_arr"
  by (simp add: write_frame_def)

lemma write_frame_length: "length (write_frame n arr) = 16"
  by (simp add: write_frame_def copy_inline_length)

lemma write_frame_nth:
  assumes "j < 16"
  shows "write_frame n arr ! j =
     (if 4 \<le> j \<and> j < 4 + min 8 (unat n) then arr ! (j - 4)
      else ([STLINK_BRIDGE_COMMAND, STLINK_BRIDGE_WRITE_SPI, ucast n, ucast (drop_bit 8 n)]
             @ replicate 12 0) ! j)"
  using assms by (simp add: write_frame_def copy_inline_nth frame_4)

lemma write_frame_explicit:
  assumes len: "length arr = unat n"
  shows "write_frame n arr =
     [STLINK_BRIDGE_COMMAND, STLINK_BRIDGE_WRITE_SPI, ucast n, ucast (drop_bit 8 n)]
       @ take 8 arr @ replicate (12 - min 8 (unat n)) 0"
proof -
  define h where
    "h = [STLINK_BRIDGE_COMMAND, STLINK_BRIDGE_WRITE_SPI, ucast n, ucast (drop_bit 8 n)]"
  have hl: "length h = 4"
    by (simp add: h_def)
  have nth: "\<And>j. j < 16 \<Longrightarrow> write_frame n arr ! j =
     (if 4 \<le> j \<and> j < 4 + min 8 (unat n) then arr ! (j - 4) else (h @ replicate 12 0) ! j)"
    unfolding h_def by (rule write_frame_nth)
  have "write_frame n arr = h @ take 8 arr @ replicate (12 - min 8 (unat n)) 0"
  proof (rule nth_equalityI)
    show "length (write_frame n arr)
        = length (h @ take 8 arr @ replicate (12 - min 8 (unat n)) 0)"
      using len by (simp add: write_frame_length hl)
  next
    fix j assume "j < length (write_frame n arr)"
    then have j: "j < 16" by (simp add: write_frame_length)
    consider "j < 4" | "4 \<le> j" "j < 4 + min 8 (unat n)" | "4 + min 8 (unat n) \<le> j"
      by linarith
    then show "write_frame n arr ! j
        = (h @ take 8 arr @ replicate (12 - min 8 (unat n)) 0) ! j"
    proof cases
      case 1
      then show ?thesis
        using j by (simp add: nth nth_append hl)
    next
      case 2
      then show ?thesis
        using j len by (auto simp add: nth nth_append hl)
    next
      case 3
      then show ?thesis
        using j len by (auto simp add: nth nth_append hl)
    qed
  qed
  then show ?thesis
    by (simp add: h_def)
qed

lemma continuation_explicit:
  assumes gt: "8 < (write_cnt :: 32 word)" and len: "length write_arr = unat write_cnt"
  shows "take (unat (write_cnt - 8)) (drop 8 write_arr) = drop 8 write_arr"
    and "unat write_cnt < 2147483648 \<Longrightarrow> sint (write_cnt - 8) = int (unat write_cnt) - 8"
proof -
  from gt have "8 \<le> write_cnt" by simp
  then have sub: "unat (write_cnt - 8) = unat write_cnt - 8"
    by (simp add: unat_sub)
  with len show "take (unat (write_cnt - 8)) (drop 8 write_arr) = drop 8 write_arr"
    by simp
  assume small: "unat write_cnt < 2147483648"
  from gt have big: "8 < unat write_cnt" by (simp add: word_less_nat_alt)
  have "uint (write_cnt - 8) = int (unat (write_cnt - 8))"
    by simp
  with sub big have u: "uint (write_cnt - 8) = int (unat write_cnt) - 8"
    by simp
  from small have "int (unat write_cnt) < int 2147483648"
    by (simp only: of_nat_less_iff)
  then have "uint write_cnt < 2147483648"
    by simp
  with u have lt: "uint (write_cnt - 8) < 2 ^ 31"
    by simp
  have ge: "- (2 ^ 31) \<le> uint (write_cnt - 8)"
    by (rule order_trans [of _ 0]) simp_all
  have "sint (write_cnt - 8) = signed_take_bit 31 (uint (write_cnt - 8))"
    by (simp add: sint_uint)
  also have "\<dots> = uint (write_cnt - 8)"
    using ge lt by (rule signed_take_bit_int_eq_self)
  finally show "sint (write_cnt - 8) = int (unat write_cnt) - 8"
    using u by simp
qed

section \<open>The prescaler\<close>

text \<open>
  What \<^verbatim>\<open>stlinkv3_spi_calc_prescaler\<close> computes once the clock query has
  answered \<open>c\<close> and the requested frequency \<open>f\<close> is not zero.
\<close>

lemma calc_prescaler_value:
  assumes clk: "stlinkv3_get_clk s = (Inr c, s1)" and f: "f \<noteq> 0"
  shows "\<exists>p r. stlinkv3_spi_calc_prescaler f s = (Inr (p, r), s1)
           \<and> (unat c div unat f \<le> 256 \<longrightarrow>
                unat c div unat f \<le> prescaler_divisor p
                \<and> (\<forall>p'. unat c div unat f \<le> prescaler_divisor p'
                       \<longrightarrow> prescaler_divisor p \<le> prescaler_divisor p'))
           \<and> (256 < unat c div unat f \<longrightarrow> p = SPI_BAUDRATEPRESCALER_256)
           \<and> unat r = (unat c div prescaler_divisor p) mod 65536"
proof -
  define q where "q = c div ucast f"
  have q: "unat q = unat c div unat f"
    by (simp add: q_def unat_div unat_ucast_16_32)
  have le: "\<And>k. (q \<le> k) = (unat c div unat f \<le> unat k)"
    by (simp add: word_le_nat_alt q)
  show ?thesis
    unfolding stlinkv3_spi_calc_prescaler_def clk
    using f
    apply (simp add: Let_def q_def [symmetric] le unat_ucast_32_16 unat_div)
    apply (intro conjI impI allI; simp?)
           apply (rename_tac x, case_tac x; simp)+
    done
qed

text \<open>
  Claim C2, as the code has it. With the bridge clock \<open>c\<close> (the clock query succeeds and
  answers \<open>c\<close>) and a requested frequency \<open>f > 0\<close>, the prescaler chosen is the one with
  the smallest divisor \<open>d\<close> of 2, 4, ..., 256 with \<open>d \<ge> c div f\<close>, and the one with
  divisor 256 when \<open>c div f > 256\<close>. The frequency returned is \<open>c div d\<close> reduced modulo
  \<open>2^16\<close>, since it is returned in a 16-bit variable.
\<close>

theorem calc_prescaler_selects_smallest_divisor:
  assumes "fst (stlinkv3_get_clk s) = Inr c" and "f \<noteq> 0"
  shows "\<exists>p r. fst (stlinkv3_spi_calc_prescaler f s) = Inr (p, r)
           \<and> (unat c div unat f \<le> 256 \<longrightarrow>
                unat c div unat f \<le> prescaler_divisor p
                \<and> (\<forall>p'. unat c div unat f \<le> prescaler_divisor p'
                       \<longrightarrow> prescaler_divisor p \<le> prescaler_divisor p'))
           \<and> (256 < unat c div unat f \<longrightarrow> prescaler_divisor p = 256)
           \<and> unat r = (unat c div prescaler_divisor p) mod 2 ^ 16"
proof -
  from assms(1) have "stlinkv3_get_clk s = (Inr c, snd (stlinkv3_get_clk s))"
    by (metis prod.collapse)
  from calc_prescaler_value [OF this assms(2)] show ?thesis
    by fastforce
qed

theorem calc_prescaler_selects_smallest_divisor_witness:
  "fst (stlinkv3_get_clk (fresh clock_48000)) = Inr 48000
   \<and> (1000 :: 16 word) \<noteq> 0
   \<and> fst (stlinkv3_spi_calc_prescaler 1000 (fresh clock_48000))
       = Inr (SPI_BAUDRATEPRESCALER_64, 750)
   \<and> (\<exists>p r. fst (stlinkv3_spi_calc_prescaler 1000 (fresh clock_48000)) = Inr (p, r)
         \<and> (unat (48000 :: 32 word) div unat (1000 :: 16 word) \<le> 256 \<longrightarrow>
              unat (48000 :: 32 word) div unat (1000 :: 16 word) \<le> prescaler_divisor p
              \<and> (\<forall>p'. unat (48000 :: 32 word) div unat (1000 :: 16 word) \<le> prescaler_divisor p'
                     \<longrightarrow> prescaler_divisor p \<le> prescaler_divisor p'))
         \<and> (256 < unat (48000 :: 32 word) div unat (1000 :: 16 word)
              \<longrightarrow> prescaler_divisor p = 256)
         \<and> unat r = (unat (48000 :: 32 word) div prescaler_divisor p) mod 2 ^ 16)"
proof -
  have clk: "fst (stlinkv3_get_clk (fresh clock_48000)) = Inr 48000"
    by code_simp
  have f: "(1000 :: 16 word) \<noteq> 0"
    by simp
  have run: "fst (stlinkv3_spi_calc_prescaler 1000 (fresh clock_48000))
       = Inr (SPI_BAUDRATEPRESCALER_64, 750)"
    by code_simp
  from clk f run calc_prescaler_selects_smallest_divisor [OF clk f] show ?thesis
    by blast
qed

text \<open>
  Claim C2 as the specification states it ends with \<open>resultingClockKHz = c div d\<close> for
  every bridge clock. At a bridge clock of 262144 kHz and a request of 65535 kHz the
  quotient \<open>c div f\<close> is 4, the divisor is 4, \<open>c div d\<close> is 65536, and the frequency
  returned is 0.
\<close>

theorem calc_prescaler_exact_quotient_counterexample:
  "fst (stlinkv3_get_clk (fresh clock_262144)) = Inr 262144
   \<and> fst (stlinkv3_spi_calc_prescaler 65535 (fresh clock_262144))
       = Inr (SPI_BAUDRATEPRESCALER_4, 0)
   \<and> unat (0 :: 16 word) \<noteq> unat (262144 :: 32 word) div prescaler_divisor SPI_BAUDRATEPRESCALER_4"
proof -
  have "fst (stlinkv3_get_clk (fresh clock_262144)) = Inr 262144"
    by code_simp
  moreover have "fst (stlinkv3_spi_calc_prescaler 65535 (fresh clock_262144))
       = Inr (SPI_BAUDRATEPRESCALER_4, 0)"
    by code_simp
  moreover have "unat (0 :: 16 word)
       \<noteq> unat (262144 :: 32 word) div prescaler_divisor SPI_BAUDRATEPRESCALER_4"
    by simp
  ultimately show ?thesis
    by simp
qed

text \<open>
  Claim C3 at a bridge clock of 48000 kHz and a request of 17000 kHz: the quotient
  \<open>c div f\<close> is 2, which is at most 256, the divisor chosen is 2, and the frequency
  returned, 24000 kHz, is above the request.
\<close>

theorem calc_prescaler_exceeds_request:
  "fst (stlinkv3_get_clk (fresh clock_48000)) = Inr 48000
   \<and> unat (48000 :: 32 word) div unat (17000 :: 16 word) \<le> 256
   \<and> fst (stlinkv3_spi_calc_prescaler 17000 (fresh clock_48000))
       = Inr (SPI_BAUDRATEPRESCALER_2, 24000)
   \<and> \<not> (24000 :: 16 word) \<le> 17000"
proof -
  have "fst (stlinkv3_get_clk (fresh clock_48000)) = Inr 48000"
    by code_simp
  moreover have "unat (48000 :: 32 word) div unat (17000 :: 16 word) \<le> 256"
    by simp
  moreover have "fst (stlinkv3_spi_calc_prescaler 17000 (fresh clock_48000))
       = Inr (SPI_BAUDRATEPRESCALER_2, 24000)"
    by code_simp
  moreover have "\<not> (24000 :: 16 word) \<le> 17000"
    by simp
  ultimately show ?thesis
    by simp
qed

theorem calc_prescaler_exceeds_request_witness:
  "\<exists>p r. fst (stlinkv3_spi_calc_prescaler 17000 (fresh clock_48000)) = Inr (p, r)
         \<and> (17000 :: 16 word) < r"
  using calc_prescaler_exceeds_request by simp

text \<open>
  Claim C10. The frequency returned by \<^verbatim>\<open>stlinkv3_spi_calc_prescaler\<close> is the
  quotient of the bridge clock by the selected divisor modulo \<open>2^16\<close>; it is that
  quotient itself exactly when the quotient is at most 65535.
\<close>

theorem calc_prescaler_result_is_16_bit:
  assumes "fst (stlinkv3_get_clk s) = Inr c" and "f \<noteq> 0"
  shows "\<exists>p r. fst (stlinkv3_spi_calc_prescaler f s) = Inr (p, r)
           \<and> unat r = (unat c div prescaler_divisor p) mod 2 ^ 16
           \<and> (unat r = unat c div prescaler_divisor p
                \<longleftrightarrow> unat c div prescaler_divisor p \<le> 65535)"
proof -
  from assms(1) have "stlinkv3_get_clk s = (Inr c, snd (stlinkv3_get_clk s))"
    by (metis prod.collapse)
  from calc_prescaler_value [OF this assms(2)]
  obtain p r where run: "fst (stlinkv3_spi_calc_prescaler f s) = Inr (p, r)"
    and r: "unat r = (unat c div prescaler_divisor p) mod 65536"
    by fastforce
  have "(unat c div prescaler_divisor p) mod 65536 = unat c div prescaler_divisor p
          \<longleftrightarrow> unat c div prescaler_divisor p \<le> 65535"
  proof
    assume "(unat c div prescaler_divisor p) mod 65536 = unat c div prescaler_divisor p"
    moreover have "(unat c div prescaler_divisor p) mod 65536 < 65536"
      by simp
    ultimately show "unat c div prescaler_divisor p \<le> 65535"
      by linarith
  next
    assume "unat c div prescaler_divisor p \<le> 65535"
    then show "(unat c div prescaler_divisor p) mod 65536 = unat c div prescaler_divisor p"
      by simp
  qed
  with run r show ?thesis
    by simp
qed

theorem calc_prescaler_result_is_16_bit_witness:
  "fst (stlinkv3_get_clk (fresh clock_262144)) = Inr 262144
   \<and> (65535 :: 16 word) \<noteq> 0
   \<and> (\<exists>p r. fst (stlinkv3_spi_calc_prescaler 65535 (fresh clock_262144)) = Inr (p, r)
         \<and> unat r = (unat (262144 :: 32 word) div prescaler_divisor p) mod 2 ^ 16
         \<and> (unat r = unat (262144 :: 32 word) div prescaler_divisor p
              \<longleftrightarrow> unat (262144 :: 32 word) div prescaler_divisor p \<le> 65535))"
proof -
  have clk: "fst (stlinkv3_get_clk (fresh clock_262144)) = Inr 262144"
    by code_simp
  have f: "(65535 :: 16 word) \<noteq> 0"
    by simp
  from clk f calc_prescaler_result_is_16_bit [OF clk f] show ?thesis
    by blast
qed

section \<open>Every block of a transaction only appends to the log\<close>

lemma status_after_read_appends:
  "\<exists>es. snd (transmit_status_after_read read_arr \<lparr>usb_device = d, usb_log = L\<rparr>)
      = \<lparr>usb_device = d, usb_log = L @ status_command # es\<rparr>"
  by (simp add: transmit_status_after_read_def get_status_explicit set_NSS_explicit
      transmit_err_explicit)

lemma read_appends:
  "\<exists>es. snd (transmit_read cmd read_cnt read_arr \<lparr>usb_device = d, usb_log = L\<rparr>)
      = \<lparr>usb_device = d, usb_log = L @ es\<rparr>
      \<and> (read_cnt \<noteq> 0 \<longrightarrow> es \<noteq> [] \<and> hd es = read_command cmd read_cnt)"
proof -
  have *: "\<And>ra L'. \<exists>es. snd (transmit_status_after_read ra \<lparr>usb_device = d, usb_log = L @ L'\<rparr>)
      = \<lparr>usb_device = d, usb_log = L @ L' @ es\<rparr>"
    subgoal for ra L'
      using status_after_read_appends [of ra d "L @ L'"] by auto
    done
  show ?thesis
  proof (cases "read_cnt = 0")
    case True
    with * [of read_arr "[]"] show ?thesis
      by (simp add: transmit_read_def)
  next
    case False
    let ?ra = "receive_into read_arr (sint read_cnt)
                 (reply_data (d (Suc (length L)) (read_data read_arr read_cnt)))"
    from * [of ?ra "[read_command cmd read_cnt, read_data read_arr read_cnt]"]
    obtain es where "snd (transmit_status_after_read ?ra
        \<lparr>usb_device = d, usb_log = L @ [read_command cmd read_cnt, read_data read_arr read_cnt]\<rparr>)
      = \<lparr>usb_device = d,
         usb_log = L @ [read_command cmd read_cnt, read_data read_arr read_cnt] @ es\<rparr>"
      by blast
    with False show ?thesis
      by (simp add: transmit_read_def bulk_explicit transmit_err_explicit Let_def
          read_command_def read_data_def)
  qed
qed

lemma status_after_write_appends:
  "\<exists>es. snd (transmit_status_after_write cmd read_cnt read_arr
              \<lparr>usb_device = d, usb_log = L\<rparr>)
      = \<lparr>usb_device = d, usb_log = L @ status_command # es\<rparr>"
proof -
  have *: "\<And>L'. \<exists>es. snd (transmit_read cmd read_cnt read_arr
              \<lparr>usb_device = d, usb_log = L @ status_command # L'\<rparr>)
      = \<lparr>usb_device = d, usb_log = L @ status_command # es\<rparr>"
    subgoal for L'
      using read_appends [of cmd read_cnt read_arr d "L @ status_command # L'"] by auto
    done
  show ?thesis
    by (simp add: transmit_status_after_write_def get_status_explicit transmit_err_explicit *)
qed

lemma transmit_log:
  assumes cs: "completes (d (length L) (cs_command SPI_NSS_LOW)) 16"
              "completes (d (Suc (length L)) cs_answer) 2"
  shows "\<exists>es. snd (stlinkv3_spi_transmit write_cnt read_cnt write_arr read_arr
                     \<lparr>usb_device = d, usb_log = L\<rparr>)
           = \<lparr>usb_device = d,
              usb_log = L @ [cs_command SPI_NSS_LOW, cs_answer, write_command write_cnt write_arr]
                         @ es\<rparr>
         \<and> es \<noteq> []
         \<and> hd es = (if \<not> completes (d (length L + 2) (write_command write_cnt write_arr)) 16
                      then cs_command SPI_NSS_HIGH
                      else if 8 < write_cnt then write_continuation write_cnt write_arr
                      else status_command)"
proof -
  let ?L1 = "L @ [cs_command SPI_NSS_LOW, cs_answer, write_command write_cnt write_arr]"
  let ?L2 = "?L1 @ [write_continuation write_cnt write_arr]"
  let ?cmd = "write_frame write_cnt write_arr"
  obtain es1 where es1: "snd (transmit_status_after_write ?cmd read_cnt read_arr
      \<lparr>usb_device = d, usb_log = ?L1\<rparr>) = \<lparr>usb_device = d, usb_log = ?L1 @ status_command # es1\<rparr>"
    using status_after_write_appends by blast
  obtain es2 where es2: "snd (transmit_status_after_write ?cmd read_cnt read_arr
      \<lparr>usb_device = d, usb_log = ?L2\<rparr>) = \<lparr>usb_device = d, usb_log = ?L2 @ status_command # es2\<rparr>"
    using status_after_write_appends by blast
  show ?thesis
    using es1 es2
    apply (simp add: stlinkv3_spi_transmit_def set_NSS_explicit cs bulk_explicit Let_def
        write_frame_fold transmit_err_explicit write_command_def [symmetric]
        write_continuation_def [symmetric])
    apply (auto simp add: completes_def)
    done
qed

section \<open>Runs on a probe that completes every transfer\<close>

lemma all_completeD:
  assumes "all_complete d"
  shows "completes (d i (cs_command lvl)) 16"
    and "completes (d i cs_answer) 2"
    and "completes (d i status_command) 16"
    and "completes (d i status_answer) 8"
    and "reply_rc (d i req) = LIBUSB_TRANSFER_COMPLETED"
    and "reply_len (d i req) = xfer_len req"
  using assms [unfolded all_complete_def, rule_format, of i "cs_command lvl"]
    assms [unfolded all_complete_def, rule_format, of i cs_answer]
    assms [unfolded all_complete_def, rule_format, of i status_command]
    assms [unfolded all_complete_def, rule_format, of i status_answer]
    assms [unfolded all_complete_def, rule_format, of i req]
  by (simp_all add: completes_def cs_command_def cs_answer_def status_command_def
      status_answer_def)

lemma status_after_read_complete:
  assumes "all_complete d"
  shows "transmit_status_after_read read_arr \<lparr>usb_device = d, usb_log = L\<rparr> =
     (if status_of (d (Suc (length L)) status_answer) = 0 then Inr read_arr
      else Inl (Failure (-1)),
      \<lparr>usb_device = d,
       usb_log = L @ [status_command, status_answer, cs_command SPI_NSS_HIGH, cs_answer]\<rparr>)"
  by (simp add: transmit_status_after_read_def get_status_explicit set_NSS_explicit
      transmit_err_explicit all_completeD [OF assms])

lemma read_complete:
  assumes "all_complete d"
  shows "\<exists>bytes. transmit_read cmd read_cnt read_arr \<lparr>usb_device = d, usb_log = L\<rparr> =
     (if status_of (d (length L + (if read_cnt \<noteq> 0 then 2 else 0) + 1) status_answer) = 0
      then Inr bytes else Inl (Failure (-1)),
      \<lparr>usb_device = d,
       usb_log = L @ (if read_cnt \<noteq> 0
                      then [read_command cmd read_cnt, read_data read_arr read_cnt] else [])
                   @ [status_command, status_answer, cs_command SPI_NSS_HIGH, cs_answer]\<rparr>)"
  by (simp add: transmit_read_def bulk_explicit Let_def status_after_read_complete [OF assms]
      all_completeD [OF assms] read_command_def read_data_def)

lemma status_after_write_complete:
  assumes "all_complete d"
  shows "\<exists>bytes. transmit_status_after_write cmd read_cnt read_arr
              \<lparr>usb_device = d, usb_log = L\<rparr> =
     (if status_of (d (length L + 1) status_answer) = 0
         \<and> status_of (d (length L + (if read_cnt \<noteq> 0 then 2 else 0) + 3) status_answer) = 0
      then Inr bytes else Inl (Failure (-1)),
      \<lparr>usb_device = d,
       usb_log = L @ [status_command, status_answer]
                   @ (if status_of (d (length L + 1) status_answer) = 0
                      then (if read_cnt \<noteq> 0
                            then [read_command cmd read_cnt, read_data read_arr read_cnt] else [])
                           @ [status_command, status_answer]
                      else [])
                   @ [cs_command SPI_NSS_HIGH, cs_answer]\<rparr>)"
proof -
  let ?L1 = "L @ [status_command, status_answer]"
  let ?r = "if read_cnt \<noteq> 0 then 2 else 0 :: nat"
  let ?rd = "if read_cnt \<noteq> 0
             then [read_command cmd read_cnt, read_data read_arr read_cnt] else []"
  from read_complete [OF assms, of cmd read_cnt read_arr ?L1]
  obtain bytes where rd:
    "transmit_read cmd read_cnt read_arr \<lparr>usb_device = d, usb_log = ?L1\<rparr> =
     (if status_of (d (length ?L1 + ?r + 1) status_answer) = 0
      then Inr bytes else Inl (Failure (-1)),
      \<lparr>usb_device = d,
       usb_log = ?L1 @ ?rd @ [status_command, status_answer, cs_command SPI_NSS_HIGH, cs_answer]\<rparr>)"
    by blast
  have idx: "length ?L1 + ?r + 1 = length L + ?r + 3"
    by simp
  have "transmit_status_after_write cmd read_cnt read_arr \<lparr>usb_device = d, usb_log = L\<rparr> =
     (if status_of (d (length L + 1) status_answer) = 0
         \<and> status_of (d (length L + ?r + 3) status_answer) = 0
      then Inr bytes else Inl (Failure (-1)),
      \<lparr>usb_device = d,
       usb_log = L @ [status_command, status_answer]
                   @ (if status_of (d (length L + 1) status_answer) = 0
                      then ?rd @ [status_command, status_answer] else [])
                   @ [cs_command SPI_NSS_HIGH, cs_answer]\<rparr>)"
    using rd [unfolded idx]
    by (simp add: transmit_status_after_write_def get_status_explicit
        transmit_err_explicit all_completeD [OF assms])
  then show ?thesis by blast
qed

lemma transmit_complete:
  assumes "all_complete d"
  shows "\<exists>bytes. stlinkv3_spi_transmit write_cnt read_cnt write_arr read_arr
              \<lparr>usb_device = d, usb_log = L\<rparr> =
     (if status_of (d (length L + (if 8 < write_cnt then 1 else 0) + 4) status_answer) = 0
         \<and> status_of (d (length L + (if 8 < write_cnt then 1 else 0)
                             + (if read_cnt \<noteq> 0 then 2 else 0) + 6) status_answer) = 0
      then Inr bytes else Inl (Failure (-1)),
      \<lparr>usb_device = d,
       usb_log = L @ [cs_command SPI_NSS_LOW, cs_answer, write_command write_cnt write_arr]
                   @ (if 8 < write_cnt then [write_continuation write_cnt write_arr] else [])
                   @ [status_command, status_answer]
                   @ (if status_of (d (length L + (if 8 < write_cnt then 1 else 0) + 4)
                                     status_answer) = 0
                      then (if read_cnt \<noteq> 0
                            then [read_command (write_frame write_cnt write_arr) read_cnt,
                                  read_data read_arr read_cnt]
                            else [])
                           @ [status_command, status_answer]
                      else [])
                   @ [cs_command SPI_NSS_HIGH, cs_answer]\<rparr>)"
proof -
  let ?k = "if 8 < write_cnt then 1 else 0 :: nat"
  let ?r = "if read_cnt \<noteq> 0 then 2 else 0 :: nat"
  let ?L1 = "L @ [cs_command SPI_NSS_LOW, cs_answer, write_command write_cnt write_arr]
               @ (if 8 < write_cnt then [write_continuation write_cnt write_arr] else [])"
  let ?cmd = "write_frame write_cnt write_arr"
  from status_after_write_complete [OF assms, of ?cmd read_cnt read_arr ?L1]
  obtain bytes where sw:
    "transmit_status_after_write ?cmd read_cnt read_arr \<lparr>usb_device = d, usb_log = ?L1\<rparr> =
     (if status_of (d (length ?L1 + 1) status_answer) = 0
         \<and> status_of (d (length ?L1 + ?r + 3) status_answer) = 0
      then Inr bytes else Inl (Failure (-1)),
      \<lparr>usb_device = d,
       usb_log = ?L1 @ [status_command, status_answer]
                   @ (if status_of (d (length ?L1 + 1) status_answer) = 0
                      then (if read_cnt \<noteq> 0
                            then [read_command ?cmd read_cnt, read_data read_arr read_cnt] else [])
                           @ [status_command, status_answer]
                      else [])
                   @ [cs_command SPI_NSS_HIGH, cs_answer]\<rparr>)"
    by blast
  have idx: "length ?L1 + 1 = length L + ?k + 4" "length ?L1 + ?r + 3 = length L + ?k + ?r + 6"
    by simp_all
  have "stlinkv3_spi_transmit write_cnt read_cnt write_arr read_arr
              \<lparr>usb_device = d, usb_log = L\<rparr> =
     (if status_of (d (length L + ?k + 4) status_answer) = 0
         \<and> status_of (d (length L + ?k + ?r + 6) status_answer) = 0
      then Inr bytes else Inl (Failure (-1)),
      \<lparr>usb_device = d,
       usb_log = ?L1 @ [status_command, status_answer]
                   @ (if status_of (d (length L + ?k + 4) status_answer) = 0
                      then (if read_cnt \<noteq> 0
                            then [read_command ?cmd read_cnt, read_data read_arr read_cnt] else [])
                           @ [status_command, status_answer]
                      else [])
                   @ [cs_command SPI_NSS_HIGH, cs_answer]\<rparr>)"
    using sw [unfolded idx]
    by (cases "8 < write_cnt")
      (simp_all add: stlinkv3_spi_transmit_def set_NSS_explicit bulk_explicit Let_def
        write_frame_fold all_completeD [OF assms] write_command_def write_continuation_def)
  then show ?thesis by auto
qed

section \<open>The write phase of a transaction\<close>

text \<open>
  Claim C7. In a transaction whose chip select low succeeded, with a payload of
  \<open>n = write_cnt\<close> bytes, the third transfer is the 16-byte write command frame: opcode
  bytes, then \<open>n\<close> as low byte and high byte (which give \<open>n\<close> back when \<open>n \<le> 65535\<close>),
  then the first \<open>min n 8\<close> payload bytes, then zeros. A transfer follows it. When the
  frame's transfer fails, that is the chip select high of the unwind. When it completes
  and \<open>n \<le> 8\<close> it is the status query, so the payload went out in the one frame; when
  \<open>n > 8\<close> it is a raw transfer of the payload bytes from index 8 on, \<open>n - 8\<close> of them.
\<close>

theorem transmit_write_framing:
  assumes cs: "fst (stlinkv3_spi_set_SPI_NSS SPI_NSS_LOW s) = Inr ()"
      and len: "length write_arr = unat write_cnt"
  shows "\<exists>es.
     usb_log (snd (stlinkv3_spi_transmit write_cnt read_cnt write_arr read_arr s)) =
       usb_log s @
         [cs_command SPI_NSS_LOW, cs_answer,
          \<lparr>xfer_ep = STLINK_EP_OUT,
           xfer_data =
             [STLINK_BRIDGE_COMMAND, STLINK_BRIDGE_WRITE_SPI,
              ucast write_cnt, ucast (drop_bit 8 write_cnt)]
               @ take 8 write_arr @ replicate (12 - min 8 (unat write_cnt)) 0,
           xfer_len = 16\<rparr>] @ es
     \<and> (unat write_cnt \<le> 65535 \<longrightarrow>
          unat (ucast write_cnt :: byte) + 256 * unat (ucast (drop_bit 8 write_cnt) :: byte)
            = unat write_cnt)
     \<and> es \<noteq> []
     \<and> (\<not> completes (usb_device s (length (usb_log s) + 2) (write_command write_cnt write_arr)) 16
          \<longrightarrow> hd es = cs_command SPI_NSS_HIGH)
     \<and> (completes (usb_device s (length (usb_log s) + 2) (write_command write_cnt write_arr)) 16
          \<longrightarrow> (write_cnt \<le> 8 \<longrightarrow> hd es = status_command)
            \<and> (8 < write_cnt \<longrightarrow>
                 hd es = \<lparr>xfer_ep = STLINK_EP_OUT, xfer_data = drop 8 write_arr,
                          xfer_len = sint (write_cnt - 8)\<rparr>
                 \<and> length (drop 8 write_arr) = unat write_cnt - 8
                 \<and> (unat write_cnt < 2147483648
                      \<longrightarrow> sint (write_cnt - 8) = int (unat write_cnt) - 8)))"
proof (cases s)
  case (fields d L)
  from cs have ok: "completes (d (length L) (cs_command SPI_NSS_LOW)) 16"
      "completes (d (Suc (length L)) cs_answer) 2"
    by (simp_all add: fields set_NSS_explicit split: if_splits)
  from transmit_log [OF ok, of write_cnt read_cnt write_arr read_arr]
  obtain es where log: "snd (stlinkv3_spi_transmit write_cnt read_cnt write_arr read_arr
                     \<lparr>usb_device = d, usb_log = L\<rparr>)
           = \<lparr>usb_device = d,
              usb_log = L @ [cs_command SPI_NSS_LOW, cs_answer, write_command write_cnt write_arr]
                         @ es\<rparr>"
    and ne: "es \<noteq> []"
    and hd: "hd es = (if \<not> completes (d (length L + 2) (write_command write_cnt write_arr)) 16
                      then cs_command SPI_NSS_HIGH
                      else if 8 < write_cnt then write_continuation write_cnt write_arr
                      else status_command)"
    by blast
  have field: "unat write_cnt \<le> 65535 \<longrightarrow>
          unat (ucast write_cnt :: byte) + 256 * unat (ucast (drop_bit 8 write_cnt) :: byte)
            = unat write_cnt"
    by (simp add: length_field)
  have cont: "8 < write_cnt \<longrightarrow>
      write_continuation write_cnt write_arr =
        \<lparr>xfer_ep = STLINK_EP_OUT, xfer_data = drop 8 write_arr, xfer_len = sint (write_cnt - 8)\<rparr>
      \<and> length (drop 8 write_arr) = unat write_cnt - 8
      \<and> (unat write_cnt < 2147483648 \<longrightarrow> sint (write_cnt - 8) = int (unat write_cnt) - 8)"
    using continuation_explicit [OF _ len] len
    by (simp add: write_continuation_def)
  have le: "write_cnt \<le> 8 \<longleftrightarrow> \<not> 8 < write_cnt"
    by (simp add: not_less)
  show ?thesis
    apply (rule exI [of _ es])
    using log ne hd field cont
    apply (simp add: fields write_command_def write_frame_explicit [OF len] le)
    done
qed

theorem transmit_write_framing_witness:
  "fst (stlinkv3_spi_set_SPI_NSS SPI_NSS_LOW \<lparr>usb_device = obliging, usb_log = []\<rparr>) = Inr ()
   \<and> length [1, 2, 3, 4, 5, 6, 7, 8, 9, 10 :: byte] = unat (10 :: 32 word)
   \<and> (\<exists>es.
     usb_log (snd (stlinkv3_spi_transmit 10 0 [1, 2, 3, 4, 5, 6, 7, 8, 9, 10] []
                     \<lparr>usb_device = obliging, usb_log = []\<rparr>)) =
         [cs_command SPI_NSS_LOW, cs_answer,
          \<lparr>xfer_ep = STLINK_EP_OUT,
           xfer_data = [0xFC, 0x21, 10, 0, 1, 2, 3, 4, 5, 6, 7, 8, 0, 0, 0, 0],
           xfer_len = 16\<rparr>] @ es
     \<and> hd es = \<lparr>xfer_ep = STLINK_EP_OUT, xfer_data = [9, 10], xfer_len = 2\<rparr>)"
proof -
  let ?s = "\<lparr>usb_device = obliging, usb_log = []\<rparr>"
  let ?w = "[1, 2, 3, 4, 5, 6, 7, 8, 9, 10 :: byte]"
  have cs: "fst (stlinkv3_spi_set_SPI_NSS SPI_NSS_LOW ?s) = Inr ()"
    by code_simp
  have len: "length ?w = unat (10 :: 32 word)"
    by simp
  have ok: "completes (usb_device ?s (length (usb_log ?s) + 2) (write_command 10 ?w)) 16"
    by (simp add: completes_def obliging_def completed_def write_command_def)
  have gt: "(8 :: 32 word) < 10"
    by simp
  have frame: "[STLINK_BRIDGE_COMMAND, STLINK_BRIDGE_WRITE_SPI,
                ucast (10 :: 32 word), ucast (drop_bit 8 (10 :: 32 word))]
                 @ take 8 ?w @ replicate (12 - min 8 (unat (10 :: 32 word))) 0
               = [0xFC, 0x21, 10, 0, 1, 2, 3, 4, 5, 6, 7, 8, 0, 0, 0, 0]"
    by code_simp
  have cont: "drop 8 ?w = [9, 10]" "sint ((10 :: 32 word) - 8) = 2"
    by simp_all
  from transmit_write_framing [OF cs len, of 0 "[]"] ok gt
  obtain es where
    "usb_log (snd (stlinkv3_spi_transmit 10 0 ?w [] ?s)) =
       usb_log ?s @
         [cs_command SPI_NSS_LOW, cs_answer,
          \<lparr>xfer_ep = STLINK_EP_OUT,
           xfer_data =
             [STLINK_BRIDGE_COMMAND, STLINK_BRIDGE_WRITE_SPI,
              ucast (10 :: 32 word), ucast (drop_bit 8 (10 :: 32 word))]
               @ take 8 ?w @ replicate (12 - min 8 (unat (10 :: 32 word))) 0,
           xfer_len = 16\<rparr>] @ es"
    and "hd es = \<lparr>xfer_ep = STLINK_EP_OUT, xfer_data = drop 8 ?w,
                          xfer_len = sint ((10 :: 32 word) - 8)\<rparr>"
    by blast
  then have "usb_log (snd (stlinkv3_spi_transmit 10 0 ?w [] ?s)) =
         [cs_command SPI_NSS_LOW, cs_answer,
          \<lparr>xfer_ep = STLINK_EP_OUT,
           xfer_data = [0xFC, 0x21, 10, 0, 1, 2, 3, 4, 5, 6, 7, 8, 0, 0, 0, 0],
           xfer_len = 16\<rparr>] @ es
     \<and> hd es = \<lparr>xfer_ep = STLINK_EP_OUT, xfer_data = [9, 10], xfer_len = 2\<rparr>"
    by (simp only: frame cont usb.simps append_Nil)
  with cs len show ?thesis
    by blast
qed

section \<open>Success of a transaction\<close>

text \<open>
  Claim C4. On a probe that completes every transfer with the length requested, a
  transaction returns success exactly when the status polled after the write and the
  status polled after the read are both zero, and \<open>-1\<close> otherwise. The log of the call
  is given in full: it always ends with the chip select high command and its answer, and
  the read phase and the second poll happen only after a first status of zero.
\<close>

theorem transmit_succeeds_iff_both_statuses_zero:
  assumes "all_complete (usb_device s)"
  shows "\<exists>bytes.
     stlinkv3_spi_transmit write_cnt read_cnt write_arr read_arr s =
       (if status_of (usb_device s (length (usb_log s) + (if 8 < write_cnt then 1 else 0) + 4)
                        status_answer) = 0
           \<and> status_of (usb_device s (length (usb_log s) + (if 8 < write_cnt then 1 else 0)
                                        + (if read_cnt \<noteq> 0 then 2 else 0) + 6)
                          status_answer) = 0
        then Inr bytes else Inl (Failure (-1)),
        s\<lparr>usb_log := usb_log s
             @ [cs_command SPI_NSS_LOW, cs_answer, write_command write_cnt write_arr]
             @ (if 8 < write_cnt then [write_continuation write_cnt write_arr] else [])
             @ [status_command, status_answer]
             @ (if status_of (usb_device s (length (usb_log s)
                                + (if 8 < write_cnt then 1 else 0) + 4) status_answer) = 0
                then (if read_cnt \<noteq> 0
                      then [read_command (write_frame write_cnt write_arr) read_cnt,
                            read_data read_arr read_cnt]
                      else [])
                     @ [status_command, status_answer]
                else [])
             @ [cs_command SPI_NSS_HIGH, cs_answer]\<rparr>)"
proof (cases s)
  case (fields d L)
  with assms have "all_complete d"
    by simp
  from transmit_complete [OF this, of write_cnt read_cnt write_arr read_arr L]
  show ?thesis
    by (simp add: fields)
qed

theorem transmit_succeeds_iff_both_statuses_zero_witness:
  "all_complete (usb_device \<lparr>usb_device = obliging, usb_log = []\<rparr>)
   \<and> status_of (obliging 4 status_answer) = 0
   \<and> status_of (obliging 8 status_answer) = 0
   \<and> (\<exists>bytes.
        stlinkv3_spi_transmit 1 3 [0x9F] [0, 0, 0] \<lparr>usb_device = obliging, usb_log = []\<rparr> =
          (Inr bytes,
           \<lparr>usb_device = obliging,
            usb_log = [cs_command SPI_NSS_LOW, cs_answer, write_command 1 [0x9F],
                       status_command, status_answer,
                       read_command (write_frame 1 [0x9F]) 3, read_data [0, 0, 0] 3,
                       status_command, status_answer,
                       cs_command SPI_NSS_HIGH, cs_answer]\<rparr>))"
proof -
  let ?s = "\<lparr>usb_device = obliging, usb_log = []\<rparr>"
  have all: "all_complete (usb_device ?s)"
    by (simp add: all_complete_def completes_def obliging_def completed_def)
  have st: "status_of (obliging 4 status_answer) = 0" "status_of (obliging 8 status_answer) = 0"
    by code_simp+
  have le: "\<not> (8 :: 32 word) < 1" "(3 :: 32 word) \<noteq> 0"
    by simp_all
  from transmit_succeeds_iff_both_statuses_zero [OF all, of 1 3 "[0x9F]" "[0, 0, 0]"]
  obtain bytes where
    "stlinkv3_spi_transmit 1 3 [0x9F] [0, 0, 0] ?s =
          (Inr bytes,
           \<lparr>usb_device = obliging,
            usb_log = [cs_command SPI_NSS_LOW, cs_answer, write_command 1 [0x9F],
                       status_command, status_answer,
                       read_command (write_frame 1 [0x9F]) 3, read_data [0, 0, 0] 3,
                       status_command, status_answer,
                       cs_command SPI_NSS_HIGH, cs_answer]\<rparr>)"
    by (auto simp add: le st)
  with all st show ?thesis
    by blast
qed

section \<open>The exit after a failed first status poll\<close>

text \<open>
  Claim C1 at a transaction of one written byte and three read bytes where the chip select
  low and the write command complete and the transfer of the first status query times
  out: the call returns \<open>-1\<close> after four transfers, and none of them is the chip select
  high command.
\<close>

theorem transmit_leaves_chip_select_low:
  "fst (stlinkv3_spi_set_SPI_NSS SPI_NSS_LOW
          (fresh [completed 16 [], completed 2 [0, 0], completed 16 [], timed_out])) = Inr ()
   \<and> fst (stlinkv3_spi_transmit 1 3 [0x9F] [0, 0, 0]
          (fresh [completed 16 [], completed 2 [0, 0], completed 16 [], timed_out]))
       = Inl (Failure (-1))
   \<and> usb_log (snd (stlinkv3_spi_transmit 1 3 [0x9F] [0, 0, 0]
          (fresh [completed 16 [], completed 2 [0, 0], completed 16 [], timed_out])))
       = [cs_command SPI_NSS_LOW, cs_answer, write_command 1 [0x9F], status_command]
   \<and> cs_command SPI_NSS_HIGH
       \<notin> set (usb_log (snd (stlinkv3_spi_transmit 1 3 [0x9F] [0, 0, 0]
          (fresh [completed 16 [], completed 2 [0, 0], completed 16 [], timed_out]))))"
  by code_simp

theorem transmit_leaves_chip_select_low_witness:
  "\<exists>n. length (usb_log (snd (stlinkv3_spi_transmit 1 3 [0x9F] [0, 0, 0]
          (fresh [completed 16 [], completed 2 [0, 0], completed 16 [], timed_out])))) = n
       \<and> n = 4"
  using transmit_leaves_chip_select_low by simp

section \<open>The firmware version gate\<close>

lemma check_version_explicit:
  "stlinkv3_check_version \<lparr>usb_device = d, usb_log = L\<rparr> =
     (if \<not> completes (d (length L) version_command) 16
      then (Inl (Failure (-1)), \<lparr>usb_device = d, usb_log = L @ [version_command]\<rparr>)
      else if \<not> completes (d (Suc (length L)) version_answer) 12
      then (Inl (Failure (-1)),
            \<lparr>usb_device = d, usb_log = L @ [version_command, version_answer]\<rparr>)
      else (Inr (if 3 \<le> version_of (d (Suc (length L)) version_answer)
                 then FW_VERSION_OK else FW_VERSION_OLD),
            \<lparr>usb_device = d, usb_log = L @ [version_command, version_answer]\<rparr>))"
  by (simp add: stlinkv3_check_version_def bulk_explicit frame_2 memset0_12
      version_command_def version_answer_def completes_def version_of_def Let_def
      FIRMWARE_BRIDGE_STLINK_V3_LAST_VERSION_def)

lemma get_clk_appends:
  "\<exists>es. snd (stlinkv3_get_clk \<lparr>usb_device = d, usb_log = L\<rparr>)
      = \<lparr>usb_device = d, usb_log = L @ clock_command # es\<rparr>"
  by (simp add: stlinkv3_get_clk_def bulk_explicit frame_3 memset0_12 clock_command_def Let_def)

lemma calc_prescaler_state:
  "snd (stlinkv3_spi_calc_prescaler f s) = snd (stlinkv3_get_clk s)"
  by (simp add: stlinkv3_spi_calc_prescaler_def Let_def case_prod_beta
      split: prod.splits sum.splits)

lemma calc_prescaler_zero:
  "fst (stlinkv3_spi_calc_prescaler f s) = Inl DivisionByZero
     \<longleftrightarrow> f = 0 \<and> (\<exists>c. fst (stlinkv3_get_clk s) = Inr c)"
  by (simp add: stlinkv3_spi_calc_prescaler_def Let_def case_prod_beta
      split: prod.splits sum.splits)

lemma open_after_version:
  assumes vc: "completes (d (length L) version_command) 16"
      and va: "completes (d (Suc (length L)) version_answer) 12"
  shows "version_of (d (Suc (length L)) version_answer) < 3 \<Longrightarrow>
           stlinkv3_spi_open f \<lparr>usb_device = d, usb_log = L\<rparr>
             = (Inl (Failure (-1)),
                \<lparr>usb_device = d, usb_log = L @ [version_command, version_answer]\<rparr>)"
    and "3 \<le> version_of (d (Suc (length L)) version_answer) \<Longrightarrow>
           \<exists>es. usb_log (snd (stlinkv3_spi_open f \<lparr>usb_device = d, usb_log = L\<rparr>))
             = L @ [version_command, version_answer, clock_command] @ es"
proof -
  assume "version_of (d (Suc (length L)) version_answer) < 3"
  then have "\<not> 3 \<le> version_of (d (Suc (length L)) version_answer)"
    by (simp add: not_le)
  then show "stlinkv3_spi_open f \<lparr>usb_device = d, usb_log = L\<rparr>
             = (Inl (Failure (-1)),
                \<lparr>usb_device = d, usb_log = L @ [version_command, version_answer]\<rparr>)"
    by (simp add: stlinkv3_spi_open_def check_version_explicit vc va)
next
  assume v: "3 \<le> version_of (d (Suc (length L)) version_answer)"
  let ?s1 = "\<lparr>usb_device = d, usb_log = L @ [version_command, version_answer]\<rparr>"
  obtain es0 where clk: "snd (stlinkv3_get_clk ?s1)
      = \<lparr>usb_device = d, usb_log = (L @ [version_command, version_answer]) @ clock_command # es0\<rparr>"
    using get_clk_appends by blast
  obtain r s2 where calc: "stlinkv3_spi_calc_prescaler f ?s1 = (r, s2)"
    by (cases "stlinkv3_spi_calc_prescaler f ?s1") auto
  with clk calc_prescaler_state [of f ?s1]
  have s2: "s2 = \<lparr>usb_device = d,
                  usb_log = (L @ [version_command, version_answer]) @ clock_command # es0\<rparr>"
    by simp
  have opn: "stlinkv3_spi_open f \<lparr>usb_device = d, usb_log = L\<rparr> =
      (case (r, s2) of
         (Inl e, s2) \<Rightarrow>
           (Inl (case e of DivisionByZero \<Rightarrow> DivisionByZero | Failure c \<Rightarrow> Failure (-1)), s2)
       | (Inr (prescaler, SCK_freq_in_kHz), s2) \<Rightarrow>
           let command = (memset0 16)
                 [0 := STLINK_BRIDGE_COMMAND,
                  1 := STLINK_BRIDGE_INIT_SPI,
                  2 := SPI_DIRECTION_2LINES_FULLDUPLEX,
                  3 := SPI_MODE_MASTER
                       OR push_bit 1 SPI_CPHA_1EDGE
                       OR push_bit 2 SPI_CPOL_LOW
                       OR push_bit 3 SPI_FIRSTBIT_MSB,
                  4 := SPI_DATASIZE_8B,
                  5 := SPI_NSS_SOFT,
                  6 := prescaler_code prescaler];
               answer = memset0 2;
               ((rc, actualLength, _), s3) = libusb_bulk_transfer STLINK_EP_OUT command 16 s2
           in if rc \<noteq> LIBUSB_TRANSFER_COMPLETED \<and> actualLength \<noteq> 16
              then (Inl (Failure (-1)), s3)
              else
                let ((rc, actualLength, answer), s4) =
                      libusb_bulk_transfer STLINK_EP_IN answer 2 s3
                in if rc \<noteq> LIBUSB_TRANSFER_COMPLETED \<or> actualLength \<noteq> 2
                   then (Inl (Failure (-1)), s4)
                   else (Inr (), s4))"
    by (simp add: stlinkv3_spi_open_def check_version_explicit vc va v calc)
  show "\<exists>es. usb_log (snd (stlinkv3_spi_open f \<lparr>usb_device = d, usb_log = L\<rparr>))
             = L @ [version_command, version_answer, clock_command] @ es"
  proof (cases r)
    case (Inl e)
    then show ?thesis
      by (simp add: opn s2)
  next
    case (Inr pr)
    then show ?thesis
      by (cases pr) (simp add: opn s2 bulk_explicit Let_def)
  qed
qed

text \<open>
  Claim C5. When the two transfers of the version query complete, the version check
  reports \<open>FW_VERSION_OK\<close> exactly when the version byte \<open>v\<close> is at least 3. When
  \<open>v < 3\<close>, opening the session fails with \<open>-1\<close> after these two transfers and nothing
  else is sent, in particular no initialisation command. When \<open>v \<ge> 3\<close>, the open goes
  on: its third transfer is the clock query.
\<close>

theorem open_version_gate:
  assumes vc: "completes (usb_device s (length (usb_log s)) version_command) 16"
      and va: "completes (usb_device s (Suc (length (usb_log s))) version_answer) 12"
  shows "fst (stlinkv3_check_version s)
           = Inr (if 3 \<le> version_of (usb_device s (Suc (length (usb_log s))) version_answer)
                  then FW_VERSION_OK else FW_VERSION_OLD)
     \<and> (version_of (usb_device s (Suc (length (usb_log s))) version_answer) < 3 \<longrightarrow>
          stlinkv3_spi_open f s
            = (Inl (Failure (-1)), s\<lparr>usb_log := usb_log s @ [version_command, version_answer]\<rparr>)
          \<and> (\<forall>p. init_command p \<notin> set [version_command, version_answer]))
     \<and> (3 \<le> version_of (usb_device s (Suc (length (usb_log s))) version_answer) \<longrightarrow>
          (\<exists>es. usb_log (snd (stlinkv3_spi_open f s))
                  = usb_log s @ [version_command, version_answer, clock_command] @ es))"
proof (cases s)
  case (fields d L)
  from vc va have ok: "completes (d (length L) version_command) 16"
      "completes (d (Suc (length L)) version_answer) 12"
    by (simp_all add: fields)
  have no_init: "\<forall>p. init_command p \<notin> set [version_command, version_answer]"
    by (simp add: init_command_def version_command_def version_answer_def opcode_defs)
  show ?thesis
    using open_after_version [OF ok, of f] no_init
    by (simp add: fields check_version_explicit ok)
qed

theorem open_version_gate_witness:
  "completes (usb_device (fresh version_2) (length (usb_log (fresh version_2))) version_command) 16
   \<and> completes (usb_device (fresh version_2) (Suc (length (usb_log (fresh version_2))))
                  version_answer) 12
   \<and> version_of (usb_device (fresh version_2) (Suc (length (usb_log (fresh version_2))))
                   version_answer) = 2
   \<and> stlinkv3_spi_open 1000 (fresh version_2)
       = (Inl (Failure (-1)),
          (fresh version_2)\<lparr>usb_log := usb_log (fresh version_2)
                                          @ [version_command, version_answer]\<rparr>)
   \<and> completes (usb_device (fresh version_3_clock_48000)
                    (length (usb_log (fresh version_3_clock_48000))) version_command) 16
   \<and> completes (usb_device (fresh version_3_clock_48000)
                    (Suc (length (usb_log (fresh version_3_clock_48000)))) version_answer) 12
   \<and> version_of (usb_device (fresh version_3_clock_48000)
                    (Suc (length (usb_log (fresh version_3_clock_48000)))) version_answer) = 3
   \<and> (\<exists>es. usb_log (snd (stlinkv3_spi_open 1000 (fresh version_3_clock_48000)))
              = usb_log (fresh version_3_clock_48000)
                  @ [version_command, version_answer, clock_command] @ es)"
proof -
  have vc2: "completes (usb_device (fresh version_2) (length (usb_log (fresh version_2)))
               version_command) 16"
    by code_simp
  have va2: "completes (usb_device (fresh version_2) (Suc (length (usb_log (fresh version_2))))
               version_answer) 12"
    by code_simp
  have v2: "version_of (usb_device (fresh version_2) (Suc (length (usb_log (fresh version_2))))
               version_answer) = 2"
    by code_simp
  have vc3: "completes (usb_device (fresh version_3_clock_48000)
               (length (usb_log (fresh version_3_clock_48000))) version_command) 16"
    by code_simp
  have va3: "completes (usb_device (fresh version_3_clock_48000)
               (Suc (length (usb_log (fresh version_3_clock_48000)))) version_answer) 12"
    by code_simp
  have v3: "version_of (usb_device (fresh version_3_clock_48000)
               (Suc (length (usb_log (fresh version_3_clock_48000)))) version_answer) = 3"
    by code_simp
  from open_version_gate [OF vc2 va2, of 1000] v2
  have old: "stlinkv3_spi_open 1000 (fresh version_2)
       = (Inl (Failure (-1)),
          (fresh version_2)\<lparr>usb_log := usb_log (fresh version_2)
                                          @ [version_command, version_answer]\<rparr>)"
    by simp
  from open_version_gate [OF vc3 va3, of 1000] v3
  have new: "\<exists>es. usb_log (snd (stlinkv3_spi_open 1000 (fresh version_3_clock_48000)))
              = usb_log (fresh version_3_clock_48000)
                  @ [version_command, version_answer, clock_command] @ es"
    by simp
  from vc2 va2 v2 old vc3 va3 v3 new show ?thesis
    by blast
qed

section \<open>The check after the initialisation command\<close>

text \<open>
  Claim C6 at two sessions with firmware version 3, both opened at 1000 kHz. In the
  first the initialisation command, the fifth transfer, is reported complete with 3 of
  its 16 bytes transferred; in the second it is reported timed out with 16 bytes
  transferred. Both opens return success.
\<close>

theorem open_tolerates_failed_init_transfer:
  "usb_log (snd (stlinkv3_spi_open 1000 (fresh init_sent_short))) ! 4
     = init_command SPI_BAUDRATEPRESCALER_64
   \<and> \<not> completes (scripted init_sent_short 4 (init_command SPI_BAUDRATEPRESCALER_64)) 16
   \<and> reply_rc (scripted init_sent_short 4 (init_command SPI_BAUDRATEPRESCALER_64))
       = LIBUSB_TRANSFER_COMPLETED
   \<and> reply_len (scripted init_sent_short 4 (init_command SPI_BAUDRATEPRESCALER_64)) = 3
   \<and> fst (stlinkv3_spi_open 1000 (fresh init_sent_short)) = Inr ()
   \<and> usb_log (snd (stlinkv3_spi_open 1000 (fresh init_sent_after_timeout))) ! 4
     = init_command SPI_BAUDRATEPRESCALER_64
   \<and> reply_rc (scripted init_sent_after_timeout 4 (init_command SPI_BAUDRATEPRESCALER_64))
       = LIBUSB_ERROR_TIMEOUT
   \<and> reply_len (scripted init_sent_after_timeout 4 (init_command SPI_BAUDRATEPRESCALER_64)) = 16
   \<and> fst (stlinkv3_spi_open 1000 (fresh init_sent_after_timeout)) = Inr ()"
  by code_simp

theorem open_tolerates_failed_init_transfer_witness:
  "\<exists>r. fst (stlinkv3_spi_open 1000 (fresh init_sent_short)) = r \<and> r = Inr ()"
  using open_tolerates_failed_init_transfer by simp

section \<open>A requested frequency of zero\<close>

text \<open>
  Claim C8. \<^verbatim>\<open>stlinkv3_spi_calc_prescaler\<close> ends in the division by zero exactly
  when the requested frequency is 0 and the clock query has succeeded. The
  initialisation passes a \<^verbatim>\<open>spispeed\<close> whose parsed value is 0 modulo \<open>2^16\<close> and
  that leaves no rest on to the open unchecked, so that, when the version check passes
  and the clock query succeeds, it ends in that division.
\<close>

theorem zero_frequency_reaches_division:
  "(fst (stlinkv3_spi_calc_prescaler f s) = Inl DivisionByZero
      \<longleftrightarrow> f = 0 \<and> (\<exists>c. fst (stlinkv3_get_clk s) = Inr c))
   \<and> (usb_ctx_ok env \<and> handle_found env \<and> spispeed env = Some str
        \<and> strtoul env str = (v, []) \<and> (ucast v :: 16 word) = 0
        \<and> fst (stlinkv3_check_version s) = Inr FW_VERSION_OK
        \<and> (\<exists>c. fst (stlinkv3_get_clk (snd (stlinkv3_check_version s))) = Inr c)
       \<longrightarrow> fst (stlinkv3_spi_init env s) = Inl DivisionByZero)"
proof (intro conjI impI)
  show "fst (stlinkv3_spi_calc_prescaler f s) = Inl DivisionByZero
      \<longleftrightarrow> f = 0 \<and> (\<exists>c. fst (stlinkv3_get_clk s) = Inr c)"
    by (rule calc_prescaler_zero)
next
  assume a: "usb_ctx_ok env \<and> handle_found env \<and> spispeed env = Some str
        \<and> strtoul env str = (v, []) \<and> (ucast v :: 16 word) = 0
        \<and> fst (stlinkv3_check_version s) = Inr FW_VERSION_OK
        \<and> (\<exists>c. fst (stlinkv3_get_clk (snd (stlinkv3_check_version s))) = Inr c)"
  from a obtain s1 where ver: "stlinkv3_check_version s = (Inr FW_VERSION_OK, s1)"
    by (metis prod.collapse)
  with a have "\<exists>c. fst (stlinkv3_get_clk s1) = Inr c"
    by simp
  then have "fst (stlinkv3_spi_calc_prescaler 0 s1) = Inl DivisionByZero"
    by (simp add: calc_prescaler_zero)
  then obtain s2 where calc: "stlinkv3_spi_calc_prescaler 0 s1 = (Inl DivisionByZero, s2)"
    by (metis prod.collapse)
  have opn: "stlinkv3_spi_open 0 s = (Inl DivisionByZero, s2)"
    by (simp add: stlinkv3_spi_open_def ver calc)
  from a show "fst (stlinkv3_spi_init env s) = Inl DivisionByZero"
    by (simp add: stlinkv3_spi_init_def opn)
qed

theorem zero_frequency_reaches_division_witness:
  "usb_ctx_ok init_env_zero \<and> handle_found init_env_zero
   \<and> spispeed init_env_zero = Some ''0''
   \<and> strtoul init_env_zero ''0'' = (0, [])
   \<and> (ucast (0 :: 64 word) :: 16 word) = 0
   \<and> fst (stlinkv3_check_version (fresh version_3_clock_48000)) = Inr FW_VERSION_OK
   \<and> fst (stlinkv3_get_clk (snd (stlinkv3_check_version (fresh version_3_clock_48000))))
       = Inr 48000
   \<and> fst (stlinkv3_spi_init init_env_zero (fresh version_3_clock_48000)) = Inl DivisionByZero"
proof -
  have env: "usb_ctx_ok init_env_zero" "handle_found init_env_zero"
      "spispeed init_env_zero = Some ''0''" "strtoul init_env_zero ''0'' = (0, [])"
    by (simp_all add: init_env_zero_def libc_zero_def)
  have z: "(ucast (0 :: 64 word) :: 16 word) = 0"
    by simp
  have ver: "fst (stlinkv3_check_version (fresh version_3_clock_48000)) = Inr FW_VERSION_OK"
    by code_simp
  have clk: "fst (stlinkv3_get_clk (snd (stlinkv3_check_version (fresh version_3_clock_48000))))
       = Inr 48000"
    by code_simp
  from zero_frequency_reaches_division
    [of 0 "fresh version_3_clock_48000" init_env_zero "''0''" 0]
    env z ver clk
  have "fst (stlinkv3_spi_init init_env_zero (fresh version_3_clock_48000)) = Inl DivisionByZero"
    by blast
  with env z ver clk show ?thesis
    by blast
qed

section \<open>The 16-bit length fields\<close>

lemma write_frame_fields:
  "write_frame n arr ! 1 = STLINK_BRIDGE_WRITE_SPI"
  "write_frame n arr ! 2 = ucast n"
  "write_frame n arr ! 3 = ucast (drop_bit 8 n)"
  by (simp_all add: write_frame_nth)

lemma read_frame_fields:
  assumes "length cmd = 16"
  shows "cmd[1 := a, 2 := b, 3 := c] ! 1 = a"
    and "cmd[1 := a, 2 := b, 3 := c] ! 2 = b"
    and "cmd[1 := a, 2 := b, 3 := c] ! 3 = c"
  using assms by simp_all

text \<open>
  Claim C9. On a probe that completes every transfer, the third transfer of a transaction
  is the write command frame, and its bytes 2 and 3 read as a 16-bit number are
  \<open>write_cnt mod 2^16\<close>: they are \<open>write_cnt\<close> exactly when \<open>write_cnt \<le> 65535\<close>. When
  there is something to read and the first status is zero, the read command frame is in
  the log at the place given, and its bytes 2 and 3 are \<open>read_cnt mod 2^16\<close> in the same
  way. The limits the driver registers for reads and writes are both 65535.
\<close>

theorem length_field_is_count_mod_65536:
  assumes "all_complete (usb_device s)"
  shows "\<exists>wf.
       usb_log (snd (stlinkv3_spi_transmit write_cnt read_cnt write_arr read_arr s))
           ! (length (usb_log s) + 2)
         = \<lparr>xfer_ep = STLINK_EP_OUT, xfer_data = wf, xfer_len = 16\<rparr>
     \<and> wf ! 1 = STLINK_BRIDGE_WRITE_SPI
     \<and> unat (wf ! 2) + 256 * unat (wf ! 3) = unat write_cnt mod 65536
     \<and> (unat (wf ! 2) + 256 * unat (wf ! 3) = unat write_cnt \<longleftrightarrow> unat write_cnt \<le> 65535)
     \<and> (read_cnt \<noteq> 0
          \<and> status_of (usb_device s (length (usb_log s) + (if 8 < write_cnt then 1 else 0) + 4)
                         status_answer) = 0
         \<longrightarrow> (\<exists>rf.
               usb_log (snd (stlinkv3_spi_transmit write_cnt read_cnt write_arr read_arr s))
                   ! (length (usb_log s) + (if 8 < write_cnt then 1 else 0) + 5)
                 = \<lparr>xfer_ep = STLINK_EP_OUT, xfer_data = rf, xfer_len = 16\<rparr>
             \<and> rf ! 1 = STLINK_BRIDGE_READ_SPI
             \<and> unat (rf ! 2) + 256 * unat (rf ! 3) = unat read_cnt mod 65536
             \<and> (unat (rf ! 2) + 256 * unat (rf ! 3) = unat read_cnt
                  \<longleftrightarrow> unat read_cnt \<le> 65535)))
     \<and> max_data_read spi_programmer_stlinkv3 = 65535
     \<and> max_data_write spi_programmer_stlinkv3 = 65535"
proof (cases s)
  case (fields d L)
  with assms have all: "all_complete d"
    by simp
  let ?T = "stlinkv3_spi_transmit write_cnt read_cnt write_arr read_arr
              \<lparr>usb_device = d, usb_log = L\<rparr>"
  let ?k = "if 8 < write_cnt then 1 else 0 :: nat"
  let ?wf = "write_frame write_cnt write_arr"
  let ?rf = "?wf[1 := STLINK_BRIDGE_READ_SPI, 2 := ucast read_cnt,
                 3 := ucast (drop_bit 8 read_cnt)]"
  from transmit_complete [OF all, of write_cnt read_cnt write_arr read_arr L]
  obtain bytes where run: "?T =
     (if status_of (d (length L + ?k + 4) status_answer) = 0
         \<and> status_of (d (length L + ?k + (if read_cnt \<noteq> 0 then 2 else 0) + 6) status_answer) = 0
      then Inr bytes else Inl (Failure (-1)),
      \<lparr>usb_device = d,
       usb_log = L @ [cs_command SPI_NSS_LOW, cs_answer, write_command write_cnt write_arr]
                   @ (if 8 < write_cnt then [write_continuation write_cnt write_arr] else [])
                   @ [status_command, status_answer]
                   @ (if status_of (d (length L + ?k + 4) status_answer) = 0
                      then (if read_cnt \<noteq> 0
                            then [read_command ?wf read_cnt, read_data read_arr read_cnt]
                            else [])
                           @ [status_command, status_answer]
                      else [])
                   @ [cs_command SPI_NSS_HIGH, cs_answer]\<rparr>)"
    by blast
  have w: "usb_log (snd ?T) ! (length L + 2)
      = \<lparr>xfer_ep = STLINK_EP_OUT, xfer_data = ?wf, xfer_len = 16\<rparr>"
    by (simp add: run nth_append write_command_def)
  have r: "read_cnt \<noteq> 0 \<and> status_of (d (length L + ?k + 4) status_answer) = 0
      \<longrightarrow> usb_log (snd ?T) ! (length L + ?k + 5)
            = \<lparr>xfer_ep = STLINK_EP_OUT, xfer_data = ?rf, xfer_len = 16\<rparr>"
    by (simp add: run nth_append read_command_def)
  have wfield: "unat (?wf ! 2) + 256 * unat (?wf ! 3) = unat write_cnt mod 65536"
    by (simp add: write_frame_fields length_field)
  have rfield: "unat (?rf ! 2) + 256 * unat (?rf ! 3) = unat read_cnt mod 65536"
    by (simp add: read_frame_fields write_frame_length length_field)
  have rop: "?rf ! 1 = STLINK_BRIDGE_READ_SPI"
    by (simp add: read_frame_fields write_frame_length)
  have adv: "max_data_read spi_programmer_stlinkv3 = 65535"
      "max_data_write spi_programmer_stlinkv3 = 65535"
    by (simp_all add: spi_programmer_stlinkv3_def UINT16_MAX_def)
  have wi: "unat (?wf ! 2) + 256 * unat (?wf ! 3) = unat write_cnt \<longleftrightarrow> unat write_cnt \<le> 65535"
    unfolding wfield by (rule mod_65536_eq_iff)
  have ri: "unat (?rf ! 2) + 256 * unat (?rf ! 3) = unat read_cnt \<longleftrightarrow> unat read_cnt \<le> 65535"
    unfolding rfield by (rule mod_65536_eq_iff)
  have "\<exists>wf. usb_log (snd ?T) ! (length L + 2)
         = \<lparr>xfer_ep = STLINK_EP_OUT, xfer_data = wf, xfer_len = 16\<rparr>
     \<and> wf ! 1 = STLINK_BRIDGE_WRITE_SPI
     \<and> unat (wf ! 2) + 256 * unat (wf ! 3) = unat write_cnt mod 65536
     \<and> (unat (wf ! 2) + 256 * unat (wf ! 3) = unat write_cnt \<longleftrightarrow> unat write_cnt \<le> 65535)"
    using w wfield wi write_frame_fields(1) [of write_cnt write_arr] by blast
  moreover have "read_cnt \<noteq> 0 \<and> status_of (d (length L + ?k + 4) status_answer) = 0
         \<longrightarrow> (\<exists>rf. usb_log (snd ?T) ! (length L + ?k + 5)
                 = \<lparr>xfer_ep = STLINK_EP_OUT, xfer_data = rf, xfer_len = 16\<rparr>
             \<and> rf ! 1 = STLINK_BRIDGE_READ_SPI
             \<and> unat (rf ! 2) + 256 * unat (rf ! 3) = unat read_cnt mod 65536
             \<and> (unat (rf ! 2) + 256 * unat (rf ! 3) = unat read_cnt
                  \<longleftrightarrow> unat read_cnt \<le> 65535))"
    using r rfield ri rop by blast
  ultimately show ?thesis
    using adv by (simp add: fields)
qed

theorem length_field_is_count_mod_65536_witness:
  "all_complete (usb_device \<lparr>usb_device = obliging, usb_log = []\<rparr>)
   \<and> (\<exists>wf.
       usb_log (snd (stlinkv3_spi_transmit 65546 0 (replicate 65546 0) []
                       \<lparr>usb_device = obliging, usb_log = []\<rparr>)) ! 2
         = \<lparr>xfer_ep = STLINK_EP_OUT, xfer_data = wf, xfer_len = 16\<rparr>
     \<and> unat (wf ! 2) + 256 * unat (wf ! 3) = 10)"
proof -
  let ?s = "\<lparr>usb_device = obliging, usb_log = []\<rparr>"
  have all: "all_complete (usb_device ?s)"
    by (simp add: all_complete_def completes_def obliging_def completed_def)
  have m: "unat (65546 :: 32 word) mod 65536 = 10"
    by simp
  have idx: "length (usb_log ?s) + 2 = 2"
    by simp
  from length_field_is_count_mod_65536 [OF all, of 65546 0 "replicate 65546 0" "[]"]
  obtain wf where
    A: "usb_log (snd (stlinkv3_spi_transmit 65546 0 (replicate 65546 0) [] ?s))
           ! (length (usb_log ?s) + 2)
         = \<lparr>xfer_ep = STLINK_EP_OUT, xfer_data = wf, xfer_len = 16\<rparr>"
    and B: "unat (wf ! 2) + 256 * unat (wf ! 3) = unat (65546 :: 32 word) mod 65536"
    by blast
  from A have A': "usb_log (snd (stlinkv3_spi_transmit 65546 0 (replicate 65546 0) [] ?s)) ! 2
         = \<lparr>xfer_ep = STLINK_EP_OUT, xfer_data = wf, xfer_len = 16\<rparr>"
    unfolding idx .
  from B have B': "unat (wf ! 2) + 256 * unat (wf ! 3) = 10"
    unfolding m .
  from all A' B' show ?thesis
    by blast
qed

end
